theory Spec2Isabelle
  imports Complex_Main
begin

section \<open>Detected regions\<close>

text \<open>
  The dataclass \<open>DiamondROI\<close> of \<open>preprocessing/sam_detector.py\<close>. The image crop and
  the cropped mask (\<open>roi_image\<close>, \<open>mask\<close>) and the raw ellipse tuple play no part in
  the functions modelled below and are left out; the field \<open>id\<close> is called \<open>roi_id\<close>.
  A contour is the list of its points. The pickup grader is modelled twice: first with
  Python floats as real numbers and exact operations, then with the rounded operations as
  parameters; the rule-based decision takes its float arithmetic as a parameter
  throughout. Where the source can produce an IEEE infinity or NaN the case is written
  out.
\<close>

record DiamondROI =
  contour :: "(int \<times> int) list"
  bounding_box :: "int \<times> int \<times> int \<times> int"
  center :: "real \<times> real"
  area :: real
  perimeter :: real
  roi_id :: nat
  major_axis :: real
  minor_axis :: real
  aspect_ratio :: real
  orientation :: string
  detected_type :: string

section \<open>Pickup grader\<close>

datatype py_error = ZeroDivisionError

text \<open>
  The state of a \<open>PickupGrader\<close> after \<open>__init__\<close>: the constructor's arguments and the
  two derived fields \<open>px_per_mm\<close> and \<open>min_distance_px\<close>, which are \<open>None\<close> when no
  image width was given.
\<close>

record PickupGrader =
  invalid_threshold :: real
  check_orientation :: bool
  diamond_type :: string
  plate_width_mm :: real
  min_distance_mm :: real
  image_width_px :: "int option"
  px_per_mm :: "real option"
  min_distance_px :: "real option"

definition PickupGrader_init ::
  "real \<Rightarrow> bool \<Rightarrow> string \<Rightarrow> real \<Rightarrow> real \<Rightarrow> int option \<Rightarrow> py_error + PickupGrader" where
  "PickupGrader_init ithr chk dt pw md iw =
     (case iw of
        None \<Rightarrow> Inr \<lparr>invalid_threshold = ithr, check_orientation = chk, diamond_type = dt,
                     plate_width_mm = pw, min_distance_mm = md, image_width_px = None,
                     px_per_mm = None, min_distance_px = None\<rparr>
      | Some w \<Rightarrow>
          if pw = 0 then Inl ZeroDivisionError
          else Inr \<lparr>invalid_threshold = ithr, check_orientation = chk, diamond_type = dt,
                     plate_width_mm = pw, min_distance_mm = md, image_width_px = Some w,
                     px_per_mm = Some (real_of_int w / pw),
                     min_distance_px = Some (md * (real_of_int w / pw))\<rparr>)"

text \<open>\<open>np.sqrt(roi.area / np.pi)\<close>, computed in three places of the grader.\<close>

definition roi_radius :: "DiamondROI \<Rightarrow> real" where
  "roi_radius roi = sqrt (area roi / pi)"

definition get_safety_threshold :: "PickupGrader \<Rightarrow> DiamondROI \<Rightarrow> real" where
  "get_safety_threshold g roi =
     (case min_distance_px g of
        Some px \<Rightarrow> px
      | None \<Rightarrow>
          (let radius = roi_radius roi;
               is_circular = (detected_type roi = ''round'' \<and> orientation roi = ''table'')
           in if is_circular then radius else radius / 3))"

text \<open>\<open>np.linalg.norm(target_center - other_center)\<close>.\<close>

definition center_distance :: "real \<times> real \<Rightarrow> real \<times> real \<Rightarrow> real" where
  "center_distance p q = sqrt ((fst p - fst q)\<^sup>2 + (snd p - snd q)\<^sup>2)"

definition edge_distance :: "DiamondROI \<Rightarrow> DiamondROI \<Rightarrow> real" where
  "edge_distance target roi =
     center_distance (center target) (center roi) - roi_radius target - roi_radius roi"

text \<open>
  One iteration of the loop of \<open>_find_nearest_edge_distance\<close>. The running minimum starts as
  \<open>float('inf')\<close>, modelled as \<open>None\<close>: every distance is below it.
\<close>

definition scan_step ::
  "PickupGrader \<Rightarrow> DiamondROI \<Rightarrow> DiamondROI \<Rightarrow> real option \<times> real \<Rightarrow> real option \<times> real" where
  "scan_step g target roi st =
     (if roi_id roi = roi_id target then st
      else
        (let d = edge_distance target roi;
             closer = (case fst st of None \<Rightarrow> True | Some m \<Rightarrow> d < m)
         in if closer
            then (Some d, min (get_safety_threshold g target) (get_safety_threshold g roi))
            else st))"

definition find_nearest_edge_distance ::
  "PickupGrader \<Rightarrow> DiamondROI \<Rightarrow> DiamondROI list \<Rightarrow> real \<times> real" where
  "find_nearest_edge_distance g target all_rois =
     (let st = fold (scan_step g target) all_rois (None, get_safety_threshold g target)
      in (case fst st of None \<Rightarrow> 0 | Some m \<Rightarrow> m, snd st))"

text \<open>
  Lines 92 to 103 of \<open>grade_diamonds\<close>: the grade of a region that is not skipped as
  tilted. The operands are numpy floats, so a zero denominator does not raise: a positive
  numerator gives \<open>inf\<close>, which \<open>min(10.0, max(0.0, inf))\<close> turns into 10, and a zero
  numerator gives NaN, which \<open>max(0.0, nan)\<close> turns into 0.
\<close>

definition isolation_grade :: "real \<Rightarrow> real \<Rightarrow> real \<Rightarrow> real" where
  "isolation_grade edge_dist safety_threshold radius =
     (if edge_dist < safety_threshold then - 1
      else
        (let min_valid_distance = safety_threshold;
             max_distance = 6 * radius
         in if max_distance - min_valid_distance = 0
            then (if edge_dist - min_valid_distance > 0 then 10 else 0)
            else min 10 (max 0 ((edge_dist - min_valid_distance)
                                  / (max_distance - min_valid_distance) * 10))))"

record GradedDiamond =
  roi :: DiamondROI
  grade :: "real option"
  nearest_distance :: "real option"
  radius :: real

definition grade_one :: "PickupGrader \<Rightarrow> DiamondROI list \<Rightarrow> DiamondROI \<Rightarrow> GradedDiamond" where
  "grade_one g diamond_rois r =
     (if check_orientation g \<and> orientation r = ''tilted''
      then \<lparr>roi = r, grade = None, nearest_distance = None, radius = roi_radius r\<rparr>
      else
        (let res = find_nearest_edge_distance g r diamond_rois
         in \<lparr>roi = r, grade = Some (isolation_grade (fst res) (snd res) (roi_radius r)),
              nearest_distance = Some (fst res), radius = roi_radius r\<rparr>))"

definition grade_diamonds :: "PickupGrader \<Rightarrow> DiamondROI list \<Rightarrow> GradedDiamond list" where
  "grade_diamonds g diamond_rois = map (grade_one g diamond_rois) diamond_rois"

subsection \<open>Concrete graders and regions\<close>

text \<open>
  The grader as the pipeline builds it for an image of width \<open>w\<close> (default plate width
  100 mm and clearance 2 mm), the grader built without an image width, and circular
  regions of a given id, centre, radius and orientation: the inputs of the examples.
\<close>

definition grader_for_width :: "int \<Rightarrow> PickupGrader" where
  "grader_for_width w = \<lparr>invalid_threshold = 3/2, check_orientation = True, diamond_type = ''round'',
     plate_width_mm = 100, min_distance_mm = 2, image_width_px = Some w,
     px_per_mm = Some (real_of_int w / 100), min_distance_px = Some (2 * (real_of_int w / 100))\<rparr>"

definition disc :: "nat \<Rightarrow> real \<times> real \<Rightarrow> real \<Rightarrow> string \<Rightarrow> DiamondROI" where
  "disc i c r ori = \<lparr>contour = [], bounding_box = (0, 0, 0, 0), center = c, area = r\<^sup>2 * pi,
     perimeter = 2 * pi * r, roi_id = i, major_axis = 2 * r, minor_axis = 2 * r,
     aspect_ratio = 1, orientation = ori, detected_type = ''round''\<rparr>"

definition region_a :: DiamondROI where
  "region_a = disc 0 (100, 100) 20 ''table''"

definition region_b :: DiamondROI where
  "region_b = disc 1 (160, 100) 20 ''table''"

definition region_b_tilted :: DiamondROI where
  "region_b_tilted = disc 1 (160, 100) 20 ''tilted''"

definition grader_without_width :: PickupGrader where
  "grader_without_width = \<lparr>invalid_threshold = 3/2, check_orientation = True, diamond_type = ''round'',
     plate_width_mm = 100, min_distance_mm = 2, image_width_px = None,
     px_per_mm = None, min_distance_px = None\<rparr>"

subsection \<open>Rounding to doubles\<close>

text \<open>
  IEEE rounding of a real number to the nearest number with 53 significant bits, ties to
  the even significand. The exponent range is not modelled: \<open>to_double\<close> is the rounding
  of binary64 for magnitudes in the normal range of doubles, which is where all values
  below lie. \<open>binade x\<close> is the exponent \<open>e\<close> with \<open>2\<^sup>e \<le> |x| < 2\<^sup>e\<^sup>+\<^sup>1\<close>.
\<close>

definition round_half_even :: "real \<Rightarrow> int" where
  "round_half_even y =
     (let f = \<lfloor>y\<rfloor>; d = y - of_int f
      in if d < 1 / 2 then f else if d > 1 / 2 then f + 1 else if even f then f else f + 1)"

definition binade :: "real \<Rightarrow> int" where
  "binade x = \<lfloor>log 2 \<bar>x\<bar>\<rfloor>"

definition to_double :: "real \<Rightarrow> real" where
  "to_double x =
     (if x = 0 then 0
      else of_int (round_half_even (x / 2 powr of_int (binade x - 52)))
             * 2 powr of_int (binade x - 52))"

subsection \<open>The grader in float arithmetic\<close>

text \<open>
  Python and numpy compute the radii and distances in IEEE doubles, so every operation
  rounds its result. A double that is neither NaN nor infinite is the real number it
  denotes, and comparisons of such doubles are exact; for regions with a non-negative area
  and a finite centre all values of the grader are of this kind. The grader is therefore
  modelled a second time over the reals with its operations as parameters: for the code
  they are numpy's rounded operations, and \<open>exact_np\<close> is exact arithmetic. A computed
  distance can differ from the exact one, for instance equal the threshold where the exact
  distance is just below it. The functions follow the source as the ones above do; only
  the arithmetic is taken from \<open>ops\<close>.
\<close>

record numpy_ops =
  np_sqrt :: "real \<Rightarrow> real"
  np_norm :: "real \<times> real \<Rightarrow> real"
  np_sub :: "real \<Rightarrow> real \<Rightarrow> real"
  np_mul :: "real \<Rightarrow> real \<Rightarrow> real"
  np_div :: "real \<Rightarrow> real \<Rightarrow> real"
  np_pi :: real

definition exact_np :: numpy_ops where
  "exact_np = \<lparr>np_sqrt = sqrt, np_norm = (\<lambda>v. sqrt ((fst v)\<^sup>2 + (snd v)\<^sup>2)),
     np_sub = (-), np_mul = (*), np_div = (/), np_pi = pi\<rparr>"

definition roi_radius_fl :: "numpy_ops \<Rightarrow> DiamondROI \<Rightarrow> real" where
  "roi_radius_fl ops other = np_sqrt ops (np_div ops (area other) (np_pi ops))"

definition get_safety_threshold_fl :: "numpy_ops \<Rightarrow> PickupGrader \<Rightarrow> DiamondROI \<Rightarrow> real" where
  "get_safety_threshold_fl ops g other =
     (case min_distance_px g of
        Some px \<Rightarrow> px
      | None \<Rightarrow>
          (let rad = roi_radius_fl ops other;
               is_circular = (detected_type other = ''round'' \<and> orientation other = ''table'')
           in if is_circular then rad else np_div ops rad 3))"

definition center_distance_fl :: "numpy_ops \<Rightarrow> real \<times> real \<Rightarrow> real \<times> real \<Rightarrow> real" where
  "center_distance_fl ops p q = np_norm ops (np_sub ops (fst p) (fst q), np_sub ops (snd p) (snd q))"

definition edge_distance_fl :: "numpy_ops \<Rightarrow> DiamondROI \<Rightarrow> DiamondROI \<Rightarrow> real" where
  "edge_distance_fl ops target other =
     np_sub ops
       (np_sub ops (center_distance_fl ops (center target) (center other)) (roi_radius_fl ops target))
       (roi_radius_fl ops other)"

definition scan_step_fl ::
  "numpy_ops \<Rightarrow> PickupGrader \<Rightarrow> DiamondROI \<Rightarrow> DiamondROI \<Rightarrow> real option \<times> real
     \<Rightarrow> real option \<times> real" where
  "scan_step_fl ops g target other st =
     (if roi_id other = roi_id target then st
      else
        (let d = edge_distance_fl ops target other;
             closer = (case fst st of None \<Rightarrow> True | Some m \<Rightarrow> d < m)
         in if closer
            then (Some d, min (get_safety_threshold_fl ops g target)
                              (get_safety_threshold_fl ops g other))
            else st))"

definition find_nearest_edge_distance_fl ::
  "numpy_ops \<Rightarrow> PickupGrader \<Rightarrow> DiamondROI \<Rightarrow> DiamondROI list \<Rightarrow> real \<times> real" where
  "find_nearest_edge_distance_fl ops g target all_rois =
     (let st = fold (scan_step_fl ops g target) all_rois
                 (None, get_safety_threshold_fl ops g target)
      in (case fst st of None \<Rightarrow> 0 | Some m \<Rightarrow> m, snd st))"

text \<open>
  Lines 92 to 103 with rounded operations. A denominator that is computed as zero gives
  \<open>inf\<close>, \<open>-inf\<close> or NaN, which \<open>min(10.0, max(0.0, _))\<close> turns into 10 for a positive
  numerator and into 0 otherwise.
\<close>

definition isolation_grade_fl :: "numpy_ops \<Rightarrow> real \<Rightarrow> real \<Rightarrow> real \<Rightarrow> real" where
  "isolation_grade_fl ops edge_dist safety_threshold rad =
     (if edge_dist < safety_threshold then - 1
      else
        (let min_valid_distance = safety_threshold;
             max_distance = np_mul ops 6 rad;
             numerator = np_sub ops edge_dist min_valid_distance;
             denominator = np_sub ops max_distance min_valid_distance
         in if denominator = 0
            then (if numerator > 0 then 10 else 0)
            else min 10 (max 0 (np_mul ops (np_div ops numerator denominator) 10))))"

definition grade_one_fl ::
  "numpy_ops \<Rightarrow> PickupGrader \<Rightarrow> DiamondROI list \<Rightarrow> DiamondROI \<Rightarrow> GradedDiamond" where
  "grade_one_fl ops g diamond_rois r =
     (if check_orientation g \<and> orientation r = ''tilted''
      then \<lparr>roi = r, grade = None, nearest_distance = None, radius = roi_radius_fl ops r\<rparr>
      else
        (let res = find_nearest_edge_distance_fl ops g r diamond_rois
         in \<lparr>roi = r,
              grade = Some (isolation_grade_fl ops (fst res) (snd res) (roi_radius_fl ops r)),
              nearest_distance = Some (fst res), radius = roi_radius_fl ops r\<rparr>))"

definition grade_diamonds_fl ::
  "numpy_ops \<Rightarrow> PickupGrader \<Rightarrow> DiamondROI list \<Rightarrow> GradedDiamond list" where
  "grade_diamonds_fl ops g diamond_rois = map (grade_one_fl ops g diamond_rois) diamond_rois"

text \<open>
  The operations with every result rounded to a double: \<open>np.sqrt\<close> is correctly rounded,
  \<open>np.linalg.norm\<close> of a vector of two doubles is the square root of its dot product, and
  \<open>np.pi\<close> is the double nearest to \<open>\<pi>\<close>. The only divisor of the grader that can be zero is
  the span of the ramp, which \<open>isolation_grade_fl\<close> tests before it divides, so the quotient
  by zero is never taken. Two round regions of 3362 pixels whose centres are
  75.42653398583495 pixels apart are the input of an example.
\<close>

definition ieee_np :: numpy_ops where
  "ieee_np =
     \<lparr>np_sqrt = (\<lambda>x. to_double (sqrt x)),
      np_norm = (\<lambda>v. to_double (sqrt (to_double (to_double (fst v * fst v)
                                                     + to_double (snd v * snd v))))),
      np_sub = (\<lambda>x y. to_double (x - y)), np_mul = (\<lambda>x y. to_double (x * y)),
      np_div = (\<lambda>x y. to_double (x / y)),
      np_pi = 884279719003555 / 281474976710656\<rparr>"

definition tight_region :: "nat \<Rightarrow> real \<Rightarrow> DiamondROI" where
  "tight_region i x = \<lparr>contour = [], bounding_box = (0, 0, 0, 0), center = (x, 0), area = 3362,
     perimeter = 206, roi_id = i, major_axis = 65, minor_axis = 65,
     aspect_ratio = 1, orientation = ''table'', detected_type = ''round''\<rparr>"

definition tight_a :: DiamondROI where
  "tight_a = tight_region 0 0"

definition tight_b :: DiamondROI where
  "tight_b = tight_region 1 (5307670474257099 / 70368744177664)"

section \<open>Rule-based orientation decision\<close>

text \<open>
  \<open>_make_decision\<close> works on Python floats, and the scores it is given can be NaN (the
  outline symmetry of a uniform patch is). Its arithmetic is therefore a parameter of the
  model: a type \<open>'f\<close> of float values with the operations the function uses. For Python
  these are the IEEE double operations, with NaN a value of \<open>'f\<close> on which every comparison
  is false; \<open>fl_lit\<close> gives the double that a decimal literal of the source denotes.
\<close>

record 'f float_ops =
  fl_lit :: "real \<Rightarrow> 'f"
  fl_add :: "'f \<Rightarrow> 'f \<Rightarrow> 'f"
  fl_sub :: "'f \<Rightarrow> 'f \<Rightarrow> 'f"
  fl_mul :: "'f \<Rightarrow> 'f \<Rightarrow> 'f"
  fl_div :: "'f \<Rightarrow> 'f \<Rightarrow> 'f"
  fl_abs :: "'f \<Rightarrow> 'f"
  fl_lt :: "'f \<Rightarrow> 'f \<Rightarrow> bool"
  fl_ge :: "'f \<Rightarrow> 'f \<Rightarrow> bool"

text \<open>
  The four thresholds a \<open>PureGeometricClassifier\<close> is constructed with, and the defaults
  of its constructor.
\<close>

record 'f PureGeometricClassifier =
  outline_sym_threshold :: 'f
  reflection_sym_threshold :: 'f
  spot_sym_threshold :: 'f
  aspect_ratio_threshold :: 'f

definition default_classifier :: "'f float_ops \<Rightarrow> 'f PureGeometricClassifier" where
  "default_classifier ops =
     \<lparr>outline_sym_threshold = fl_lit ops 0.70, reflection_sym_threshold = fl_lit ops 0.65,
      spot_sym_threshold = fl_lit ops 0.60, aspect_ratio_threshold = fl_lit ops 0.58\<rparr>"

text \<open>\<open>PureGeometricClassifier._make_decision\<close>, with the arguments in the source's order.\<close>

definition make_decision ::
  "'f float_ops \<Rightarrow> 'f PureGeometricClassifier \<Rightarrow> 'f \<Rightarrow> 'f \<Rightarrow> bool \<Rightarrow> 'f \<Rightarrow> 'f \<Rightarrow> string \<times> 'f" where
  "make_decision ops c outline_sym reflection_sym has_spot spot_sym aspect =
     (if fl_ge ops outline_sym (outline_sym_threshold c) \<and>
         fl_ge ops reflection_sym (reflection_sym_threshold c) \<and>
         fl_ge ops aspect (aspect_ratio_threshold c)
      then (''table'',
            fl_div ops (fl_add ops (fl_add ops outline_sym reflection_sym) aspect) (fl_lit ops 3.0))
      else
        (let weak_count = (if fl_lt ops outline_sym (fl_lit ops 0.60) then 1 else 0)
                        + (if fl_lt ops reflection_sym (fl_lit ops 0.55) then 1 else 0)
                        + (if fl_lt ops aspect (fl_lit ops 0.52) then (1::nat) else 0)
         in if weak_count \<ge> 2
            then (''tilted'',
                  fl_sub ops (fl_lit ops 1.0)
                    (fl_div ops (fl_add ops (fl_add ops outline_sym reflection_sym) aspect)
                       (fl_lit ops 3.0)))
            else
              (let primary_score =
                     fl_add ops
                       (fl_add ops (fl_mul ops (fl_lit ops 0.25) outline_sym)
                                   (fl_mul ops (fl_lit ops 0.35) reflection_sym))
                       (fl_mul ops (fl_lit ops 0.40) aspect);
                   final_score =
                     (if fl_lt ops (fl_abs ops (fl_sub ops primary_score (fl_lit ops 0.60)))
                           (fl_lit ops 0.05)
                      then (if has_spot \<and> fl_ge ops spot_sym (spot_sym_threshold c)
                            then fl_add ops (fl_mul ops (fl_lit ops 0.7) primary_score)
                                            (fl_mul ops (fl_lit ops 0.3) spot_sym)
                            else primary_score)
                      else primary_score)
               in if fl_ge ops final_score (fl_lit ops 0.60) then (''table'', final_score)
                  else (''tilted'', fl_sub ops (fl_lit ops 1.0) final_score))))"

subsection \<open>The documented three-rule policy\<close>

text \<open>
  The policy as the specification words it, for comparison with \<open>make_decision\<close>: the mean
  of the three primary metrics, the number of weak metrics, and the three rules in order,
  each formula evaluated in the same float arithmetic, from left to right. The spot
  information is the pair of the large-spot flag and the spot symmetry; a spot qualifies
  when it exists and its symmetry is at least 0.60.
\<close>

definition mean3 :: "'f float_ops \<Rightarrow> 'f \<Rightarrow> 'f \<Rightarrow> 'f \<Rightarrow> 'f" where
  "mean3 ops a b c = fl_div ops (fl_add ops (fl_add ops a b) c) (fl_lit ops 3)"

definition weak_metrics :: "'f float_ops \<Rightarrow> 'f \<Rightarrow> 'f \<Rightarrow> 'f \<Rightarrow> nat" where
  "weak_metrics ops outline reflection aspect =
     length (filter id [fl_lt ops outline (fl_lit ops 0.60),
                        fl_lt ops reflection (fl_lit ops 0.55),
                        fl_lt ops aspect (fl_lit ops 0.52)])"

definition qualifying_spot :: "'f float_ops \<Rightarrow> bool \<times> 'f \<Rightarrow> bool" where
  "qualifying_spot ops spot = (fst spot \<and> fl_ge ops (snd spot) (fl_lit ops 0.60))"

definition weighted_score :: "'f float_ops \<Rightarrow> 'f \<Rightarrow> 'f \<Rightarrow> 'f \<Rightarrow> 'f" where
  "weighted_score ops outline reflection aspect =
     fl_add ops
       (fl_add ops (fl_mul ops (fl_lit ops 0.25) outline) (fl_mul ops (fl_lit ops 0.35) reflection))
       (fl_mul ops (fl_lit ops 0.40) aspect)"

definition policy_decision ::
  "'f float_ops \<Rightarrow> 'f \<Rightarrow> 'f \<Rightarrow> 'f \<Rightarrow> bool \<times> 'f \<Rightarrow> string \<times> 'f" where
  "policy_decision ops outline reflection aspect spot =
     (if fl_ge ops outline (fl_lit ops 0.70) \<and> fl_ge ops reflection (fl_lit ops 0.65) \<and>
         fl_ge ops aspect (fl_lit ops 0.58)
      then (''table'', mean3 ops outline reflection aspect)
      else if weak_metrics ops outline reflection aspect \<ge> 2
      then (''tilted'', fl_sub ops (fl_lit ops 1) (mean3 ops outline reflection aspect))
      else
        (let score = weighted_score ops outline reflection aspect;
             final = (if fl_lt ops (fl_abs ops (fl_sub ops score (fl_lit ops 0.60))) (fl_lit ops 0.05)
                         \<and> qualifying_spot ops spot
                      then fl_add ops (fl_mul ops (fl_lit ops 0.7) score)
                                      (fl_mul ops (fl_lit ops 0.3) (snd spot))
                      else score)
         in if fl_ge ops final (fl_lit ops 0.60) then (''table'', final)
            else (''tilted'', fl_sub ops (fl_lit ops 1) final)))"

text \<open>
  Exact arithmetic as one instance of the operations: the real numbers, where every
  literal denotes itself. The source computes with the double operations, another
  instance; at the boundaries of the rules its results can differ from the exact ones.
\<close>

definition real_ops :: "real float_ops" where
  "real_ops = \<lparr>fl_lit = (\<lambda>x. x), fl_add = (+), fl_sub = (-), fl_mul = (*), fl_div = (/),
     fl_abs = abs, fl_lt = (<), fl_ge = (\<ge>)\<rparr>"

text \<open>
  Python's doubles as another instance: a float is a real number or NaN (\<open>None\<close>), every
  operation rounds its exact result, NaN propagates and every comparison with NaN is
  false. Infinities are not values of this instance; the decision divides by 3.0 only.
\<close>

definition lift_op :: "(real \<Rightarrow> real \<Rightarrow> real) \<Rightarrow> real option \<Rightarrow> real option \<Rightarrow> real option" where
  "lift_op f a b =
     (case a of None \<Rightarrow> None
      | Some x \<Rightarrow> (case b of None \<Rightarrow> None | Some y \<Rightarrow> Some (to_double (f x y))))"

definition lift_cmp :: "(real \<Rightarrow> real \<Rightarrow> bool) \<Rightarrow> real option \<Rightarrow> real option \<Rightarrow> bool" where
  "lift_cmp p a b =
     (case a of None \<Rightarrow> False
      | Some x \<Rightarrow> (case b of None \<Rightarrow> False | Some y \<Rightarrow> p x y))"

definition double_ops :: "real option float_ops" where
  "double_ops =
     \<lparr>fl_lit = (\<lambda>x. Some (to_double x)),
      fl_add = lift_op (+), fl_sub = lift_op (-), fl_mul = lift_op (*),
      fl_div = (\<lambda>a b. if b = Some 0 then None else lift_op (/) a b),
      fl_abs = map_option abs, fl_lt = lift_cmp (<), fl_ge = lift_cmp (\<ge>)\<rparr>"

section \<open>Detector post-processing\<close>

subsection \<open>Building a region\<close>

text \<open>
  What \<open>SAMDiamondDetector.detect\<close> has measured with OpenCV for a mask that passed the
  area, contour and shape gates, when it reaches the construction of the \<open>DiamondROI\<close>:
  the contour, its bounding rectangle, the centroid from the moments, the pixel area, the
  arc length and the two axes of the fitted ellipse.
\<close>

record measured =
  m_contour :: "(int \<times> int) list"
  m_bounding_box :: "int \<times> int \<times> int \<times> int"
  m_center :: "real \<times> real"
  m_area :: real
  m_perimeter :: real
  m_axes :: "real \<times> real"

text \<open>Lines 220 to 257 of \<open>detect\<close>: the axis ratio, the shape category and the record.\<close>

definition make_roi :: "nat \<Rightarrow> measured \<Rightarrow> DiamondROI" where
  "make_roi rid m =
     (let major = max (fst (m_axes m)) (snd (m_axes m));
          minor = min (fst (m_axes m)) (snd (m_axes m));
          ratio = (if major > 0 then minor / major else 0);
          dtype = (if ratio > 0.85 then ''round'' else ''other'')
      in \<lparr>contour = m_contour m, bounding_box = m_bounding_box m, center = m_center m,
          area = m_area m, perimeter = m_perimeter m, roi_id = rid,
          major_axis = major, minor_axis = minor, aspect_ratio = ratio,
          orientation = ''unknown'', detected_type = dtype\<rparr>)"

text \<open>
  The loop of \<open>detect\<close> over the masks that pass the gates: \<open>roi_id\<close> starts at 0 and is
  incremented after each appended region.
\<close>

fun build_rois_from :: "nat \<Rightarrow> measured list \<Rightarrow> DiamondROI list" where
  "build_rois_from rid [] = []"
| "build_rois_from rid (m # ms) = make_roi rid m # build_rois_from (Suc rid) ms"

definition build_rois :: "measured list \<Rightarrow> DiamondROI list" where
  "build_rois ms = build_rois_from 0 ms"

subsection \<open>Nested-region removal\<close>

definition bbox_contained :: "int \<times> int \<times> int \<times> int \<Rightarrow> int \<times> int \<times> int \<times> int \<Rightarrow> bool" where
  "bbox_contained bi bj =
     (case bi of (x_i, y_i, w_i, h_i) \<Rightarrow>
      case bj of (x_j, y_j, w_j, h_j) \<Rightarrow>
        x_i \<ge> x_j \<and> y_i \<ge> y_j \<and> x_i + w_i \<le> x_j + w_j \<and> y_i + h_i \<le> y_j + h_j)"

text \<open>
  The inner loop of \<open>_remove_nested_rois\<close> for the region \<open>roi_i\<close> at index \<open>i\<close>, over the
  enumerated list: the result says whether the loop reaches \<open>to_remove.add(i); break\<close>.
  The parameter \<open>inside\<close> stands for OpenCV's
  \<open>cv2.pointPolygonTest(contour, point, False) >= 0\<close>.
\<close>

fun nested_in_some ::
  "((int \<times> int) list \<Rightarrow> real \<times> real \<Rightarrow> bool) \<Rightarrow> nat \<Rightarrow> DiamondROI \<Rightarrow> nat set
     \<Rightarrow> (nat \<times> DiamondROI) list \<Rightarrow> bool" where
  "nested_in_some inside i roi_i to_remove [] = False"
| "nested_in_some inside i roi_i to_remove ((j, roi_j) # rest) =
     (if i = j \<or> j \<in> to_remove then nested_in_some inside i roi_i to_remove rest
      else if area roi_i \<ge> area roi_j then nested_in_some inside i roi_i to_remove rest
      else if inside (contour roi_j) (center roi_i)
      then (if bbox_contained (bounding_box roi_i) (bounding_box roi_j) then True
            else nested_in_some inside i roi_i to_remove rest)
      else nested_in_some inside i roi_i to_remove rest)"

text \<open>One iteration of the outer loop, and the whole scan that computes \<open>to_remove\<close>.\<close>

definition nested_step ::
  "((int \<times> int) list \<Rightarrow> real \<times> real \<Rightarrow> bool) \<Rightarrow> DiamondROI list \<Rightarrow> nat \<Rightarrow> nat set \<Rightarrow> nat set" where
  "nested_step inside diamond_rois i to_remove =
     (if i \<in> to_remove then to_remove
      else if nested_in_some inside i (diamond_rois ! i) to_remove (enumerate 0 diamond_rois)
      then insert i to_remove
      else to_remove)"

definition nested_indices ::
  "((int \<times> int) list \<Rightarrow> real \<times> real \<Rightarrow> bool) \<Rightarrow> DiamondROI list \<Rightarrow> nat set" where
  "nested_indices inside diamond_rois =
     fold (nested_step inside diamond_rois) [0..<length diamond_rois] {}"

text \<open>\<open>for new_id, roi in enumerate(filtered_rois): roi.id = new_id\<close>.\<close>

fun renumber :: "nat \<Rightarrow> DiamondROI list \<Rightarrow> DiamondROI list" where
  "renumber new_id [] = []"
| "renumber new_id (r # rs) = r\<lparr>roi_id := new_id\<rparr> # renumber (Suc new_id) rs"

definition remove_nested_rois ::
  "((int \<times> int) list \<Rightarrow> real \<times> real \<Rightarrow> bool) \<Rightarrow> DiamondROI list \<Rightarrow> DiamondROI list" where
  "remove_nested_rois inside diamond_rois =
     (if length diamond_rois \<le> 1 then diamond_rois
      else
        (let to_remove = nested_indices inside diamond_rois;
             filtered_rois = map snd (filter (\<lambda>p. fst p \<notin> to_remove) (enumerate 0 diamond_rois))
         in renumber 0 filtered_rois))"

text \<open>The end of \<open>detect\<close>: the regions built from the masks, then the removal.\<close>

definition detect_rois ::
  "((int \<times> int) list \<Rightarrow> real \<times> real \<Rightarrow> bool) \<Rightarrow> measured list \<Rightarrow> DiamondROI list" where
  "detect_rois inside ms = remove_nested_rois inside (build_rois ms)"

text \<open>
  The nesting condition of the inner loop on a pair of regions: \<open>a\<close> is smaller than \<open>b\<close>,
  its centroid is inside the contour of \<open>b\<close> and its bounding box is within that of \<open>b\<close>.
\<close>

definition nested_in ::
  "((int \<times> int) list \<Rightarrow> real \<times> real \<Rightarrow> bool) \<Rightarrow> DiamondROI \<Rightarrow> DiamondROI \<Rightarrow> bool" where
  "nested_in inside a b =
     (area a < area b \<and> inside (contour b) (center a) \<and>
      bbox_contained (bounding_box a) (bounding_box b))"

subsection \<open>Point-in-contour test for convex contours\<close>

text \<open>
  For the concrete examples the contours are convex polygons, given by their corners in
  order. For such a contour \<open>cv2.pointPolygonTest(contour, p, False) >= 0\<close> (inside or on
  the boundary) holds exactly when \<open>p\<close> is on the same side of every edge.
\<close>

definition cross_side :: "int \<times> int \<Rightarrow> int \<times> int \<Rightarrow> real \<times> real \<Rightarrow> real" where
  "cross_side a b p =
     (real_of_int (fst b) - real_of_int (fst a)) * (snd p - real_of_int (snd a))
     - (real_of_int (snd b) - real_of_int (snd a)) * (fst p - real_of_int (fst a))"

definition contour_edges :: "(int \<times> int) list \<Rightarrow> ((int \<times> int) \<times> (int \<times> int)) list" where
  "contour_edges c = zip c (rotate1 c)"

definition convex_contains :: "(int \<times> int) list \<Rightarrow> real \<times> real \<Rightarrow> bool" where
  "convex_contains c p =
     (c \<noteq> [] \<and>
      (list_all (\<lambda>e. cross_side (fst e) (snd e) p \<ge> 0) (contour_edges c) \<or>
       list_all (\<lambda>e. cross_side (fst e) (snd e) p \<le> 0) (contour_edges c)))"

text \<open>
  Three overlapping masks as measured by \<open>detect\<close>: a 36 by 36 square, a large pentagon (a
  square with one corner cut off) that holds the square's centroid, and a 10 by 10 square
  inside the first square whose centroid lies beyond the pentagon's cut corner.
\<close>

definition mid_square :: measured where
  "mid_square = \<lparr>m_contour = [(60, 60), (95, 60), (95, 95), (60, 95)],
     m_bounding_box = (60, 60, 36, 36), m_center = (155 / 2, 155 / 2), m_area = 1296,
     m_perimeter = 140, m_axes = (40, 40)\<rparr>"

definition big_pentagon :: measured where
  "big_pentagon = \<lparr>m_contour = [(0, 0), (100, 0), (100, 60), (60, 100), (0, 100)],
     m_bounding_box = (0, 0, 101, 101), m_center = (48, 48), m_area = 9200,
     m_perimeter = 377, m_axes = (104, 100)\<rparr>"

definition small_square :: measured where
  "small_square = \<lparr>m_contour = [(85, 85), (94, 85), (94, 94), (85, 94)],
     m_bounding_box = (85, 85, 10, 10), m_center = (179 / 2, 179 / 2), m_area = 100,
     m_perimeter = 36, m_axes = (11, 11)\<rparr>"

definition overlapping_masks :: "measured list" where
  "overlapping_masks = [mid_square, big_pentagon, small_square]"

section \<open>Mask merge pass\<close>

text \<open>
  The configuration of a \<open>SAMDiamondDetector\<close>. A mask is its pixel array flattened to a
  list; all masks of one image have the image's shape, so the same length. A raw mask
  holds membership probabilities, a binarized mask the \<open>uint8\<close> values 0 and 1.
\<close>

record SAMDiamondDetector =
  min_area :: int
  max_area :: int
  padding :: int
  merge_overlapping :: bool
  overlap_threshold :: real

definition binarize :: "real list \<Rightarrow> nat list" where
  "binarize raw = map (\<lambda>p. if p > 0.5 then 1 else 0) raw"

definition logical_and :: "nat list \<Rightarrow> nat list \<Rightarrow> nat list" where
  "logical_and a b = map2 (\<lambda>x y. if x \<noteq> 0 \<and> y \<noteq> 0 then 1 else 0) a b"

definition logical_or :: "nat list \<Rightarrow> nat list \<Rightarrow> nat list" where
  "logical_or a b = map2 (\<lambda>x y. if x \<noteq> 0 \<or> y \<noteq> 0 then 1 else 0) a b"

definition calculate_iou :: "nat list \<Rightarrow> nat list \<Rightarrow> real" where
  "calculate_iou mask1 mask2 =
     (let intersection = sum_list (logical_and mask1 mask2);
          union = sum_list (logical_or mask1 mask2)
      in if union > 0 then real intersection / real union else 0)"

text \<open>
  The test in the body of the inner \<open>for\<close> loop of \<open>_merge_masks\<close>. The variable
  \<open>current_area\<close> of the source always holds \<open>current_merged.sum()\<close> and is computed here.
\<close>

definition should_merge :: "real \<Rightarrow> nat list \<Rightarrow> nat list \<Rightarrow> bool" where
  "should_merge thr current_merged mask_j =
     (let current_area = sum_list current_merged;
          area_j = sum_list mask_j;
          iou = calculate_iou current_merged mask_j;
          intersection = sum_list (logical_and current_merged mask_j);
          containment_j = (if area_j > 0 then real intersection / real area_j else 0);
          containment_current =
            (if current_area > 0 then real intersection / real current_area else 0);
          max_containment = max containment_j containment_current;
          size_ratio = (if min current_area area_j > 0
                        then real (max current_area area_j) / real (min current_area area_j)
                        else 1)
      in max_containment > 0.5 \<or> (iou > thr \<and> size_ratio > 1.5) \<or> iou > 0.4)"

text \<open>
  The parallel lists \<open>binary_masks\<close> and \<open>used\<close> are kept as one list of pairs. One pass of
  \<open>for j in range(len(binary_masks))\<close>: every unused mask that should merge is joined to
  the current mask and marked used; the third component is \<open>changed\<close>.
\<close>

fun sweep :: "real \<Rightarrow> nat list \<Rightarrow> (nat list \<times> bool) list
                \<Rightarrow> nat list \<times> (nat list \<times> bool) list \<times> bool" where
  "sweep thr cur [] = (cur, [], False)"
| "sweep thr cur ((mask_j, used_j) # rest) =
     (if used_j
      then (case sweep thr cur rest of (c, rest', changed) \<Rightarrow> (c, (mask_j, used_j) # rest', changed))
      else if should_merge thr cur mask_j
      then (case sweep thr (logical_or cur mask_j) rest of
              (c, rest', changed) \<Rightarrow> (c, (mask_j, True) # rest', True))
      else (case sweep thr cur rest of
              (c, rest', changed) \<Rightarrow> (c, (mask_j, False) # rest', changed)))"

definition unused :: "(nat list \<times> bool) list \<Rightarrow> nat" where
  "unused entries = length (filter (\<lambda>e. \<not> snd e) entries)"

lemma sweep_unused:
  "sweep thr cur entries = (c, entries', changed) \<Longrightarrow>
     unused entries' \<le> unused entries \<and> (changed \<longrightarrow> unused entries' < unused entries)"
proof (induction entries arbitrary: cur c entries' changed)
  case Nil
  then show ?case by (simp add: unused_def)
next
  case (Cons e entries)
  obtain mask_j used_j where e: "e = (mask_j, used_j)" by (cases e)
  show ?case
  proof (cases used_j)
    case True
    obtain c1 r1 ch1 where s: "sweep thr cur entries = (c1, r1, ch1)"
      by (cases "sweep thr cur entries")
    with Cons.prems e True have "entries' = (mask_j, True) # r1" "changed = ch1" by simp_all
    with Cons.IH[OF s] True e show ?thesis by (simp add: unused_def)
  next
    case False
    show ?thesis
    proof (cases "should_merge thr cur mask_j")
      case True
      obtain c1 r1 ch1 where s: "sweep thr (logical_or cur mask_j) entries = (c1, r1, ch1)"
        by (cases "sweep thr (logical_or cur mask_j) entries")
      with Cons.prems e False True have "entries' = (mask_j, True) # r1" by simp
      with Cons.IH[OF s] False e show ?thesis by (simp add: unused_def)
    next
      case nm: False
      obtain c1 r1 ch1 where s: "sweep thr cur entries = (c1, r1, ch1)"
        by (cases "sweep thr cur entries")
      with Cons.prems e False nm have "entries' = (mask_j, False) # r1" "changed = ch1"
        by simp_all
      with Cons.IH[OF s] False e show ?thesis by (simp add: unused_def)
    qed
  qed
qed

text \<open>
  \<open>while changed\<close>: passes are repeated until one merges nothing. Every pass that merges
  marks at least one more mask as used, so the loop ends.
\<close>

function grow :: "real \<Rightarrow> nat list \<Rightarrow> (nat list \<times> bool) list \<Rightarrow> nat list \<times> (nat list \<times> bool) list" where
  "grow thr cur entries =
     (case sweep thr cur entries of
        (c, entries', changed) \<Rightarrow> if changed then grow thr c entries' else (c, entries'))"
  by pat_completeness auto
termination
proof (relation "measure (\<lambda>(thr, cur, entries). unused entries)")
  show "wf (measure (\<lambda>(thr, cur, entries). unused entries))" by simp
next
  fix thr :: real and cur :: "nat list" and entries :: "(nat list \<times> bool) list"
    and x c y entries' changed
  assume "(c, y) = sweep thr cur entries" and "(entries', changed) = y" and changed
  then have "sweep thr cur entries = (c, entries', True)" by simp
  from sweep_unused[OF this]
  show "((thr, c, entries'), (thr, cur, entries)) \<in> measure (\<lambda>(thr, cur, entries). unused entries)"
    by simp
qed

declare grow.simps [simp del]

text \<open>
  One iteration of the outer loop \<open>for i in range(len(binary_masks))\<close>: a used mask is
  skipped; an unused one seeds a group, grows it and appends it as \<open>float32\<close>.
\<close>

definition seed_step ::
  "real \<Rightarrow> nat \<Rightarrow> (nat list \<times> bool) list \<times> real list list
     \<Rightarrow> (nat list \<times> bool) list \<times> real list list" where
  "seed_step thr i st =
     (let entries = fst st; merged = snd st
      in if snd (entries ! i) then st
         else
           (let current_merged = fst (entries ! i);
                entries1 = entries[i := (current_merged, True)];
                res = grow thr current_merged entries1
            in (snd res, merged @ [map real (fst res)])))"

definition merge_masks :: "SAMDiamondDetector \<Rightarrow> real list list \<Rightarrow> real list list" where
  "merge_masks det masks_list =
     (if \<not> merge_overlapping det then masks_list
      else if length masks_list = 0 then masks_list
      else
        (let binary_masks = map binarize masks_list;
             st = fold (seed_step (overlap_threshold det)) [0..<length binary_masks]
                    (map (\<lambda>m. (m, False)) binary_masks, [])
         in snd st))"

text \<open>
  A detector with merging switched on and the constructor's other defaults, and three
  masks over eight pixels: \<open>mask_a\<close> covers pixels 0 to 4, \<open>mask_b\<close> pixels 0, 1, 5, 6, 7 and
  \<open>mask_c\<close> pixels 2, 3, 5, 6, 7.
\<close>

definition merging_detector :: SAMDiamondDetector where
  "merging_detector = \<lparr>min_area = 200, max_area = 50000, padding = 10,
     merge_overlapping = True, overlap_threshold = 0.25\<rparr>"

definition mask_a :: "real list" where "mask_a = [1, 1, 1, 1, 1, 0, 0, 0]"
definition mask_b :: "real list" where "mask_b = [1, 1, 0, 0, 0, 1, 1, 1]"
definition mask_c :: "real list" where "mask_c = [0, 0, 1, 1, 0, 1, 1, 1]"

text \<open>The same masks binarized, and the unions that the merge pass forms of them.\<close>

definition bin_a :: "nat list" where "bin_a = [1, 1, 1, 1, 1, 0, 0, 0]"
definition bin_b :: "nat list" where "bin_b = [1, 1, 0, 0, 0, 1, 1, 1]"
definition bin_c :: "nat list" where "bin_c = [0, 0, 1, 1, 0, 1, 1, 1]"
definition bin_bc :: "nat list" where "bin_bc = [1, 1, 1, 1, 0, 1, 1, 1]"
definition bin_all :: "nat list" where "bin_all = [1, 1, 1, 1, 1, 1, 1, 1]"

section \<open>Symmetry measurements\<close>

text \<open>
  The measurements work on images that OpenCV has rotated about the axis, split at the
  vertical midline and mirrored. The model starts from these arrays, flattened to lists of
  \<open>uint8\<close> values: the left half and the mirrored right half of the image, and the same
  halves of the mask. A numpy float that may be NaN is a \<open>real option\<close>, with \<open>None\<close> for NaN.
\<close>

definition valid_pixels :: "nat list \<Rightarrow> nat list \<Rightarrow> bool list" where
  "valid_pixels left_mask right_mask_mirror =
     map2 (\<lambda>a b. a > 127 \<and> b > 127) left_mask right_mask_mirror"

definition count_valid :: "bool list \<Rightarrow> nat" where
  "count_valid valid = length (filter id valid)"

text \<open>\<open>left[valid_mask].astype(np.float32)\<close>.\<close>

definition select_valid :: "nat list \<Rightarrow> bool list \<Rightarrow> real list" where
  "select_valid img valid = map (\<lambda>p. real (fst p)) (filter snd (zip img valid))"

definition np_mean :: "real list \<Rightarrow> real" where
  "np_mean xs = sum_list xs / real (length xs)"

definition np_std :: "real list \<Rightarrow> real" where
  "np_std xs = sqrt (np_mean (map (\<lambda>x. (x - np_mean xs)\<^sup>2) xs))"

text \<open>
  The entry \<open>[0, 1]\<close> of \<open>np.corrcoef(x, y)\<close>: the covariance matrix (with divisor
  \<open>n - 1\<close>) is divided by the square roots of its diagonal and clipped to \<open>[-1, 1]\<close>. When a
  variance is zero the division is \<open>0 / 0\<close> and the entry is NaN.
\<close>

definition corrcoef :: "real list \<Rightarrow> real list \<Rightarrow> real option" where
  "corrcoef xs ys =
     (let mx = np_mean xs; my = np_mean ys;
          dof = real (length xs) - 1;
          cxx = sum_list (map (\<lambda>x. (x - mx) * (x - mx)) xs) / dof;
          cyy = sum_list (map (\<lambda>y. (y - my) * (y - my)) ys) / dof;
          cxy = sum_list (map2 (\<lambda>x y. (x - mx) * (y - my)) xs ys) / dof
      in if sqrt cxx = 0 \<or> sqrt cyy = 0 then None
         else Some (min 1 (max (- 1) (cxy / sqrt cxx / sqrt cyy))))"

text \<open>
  \<open>ShapeBasedSymmetryDetector.compute_mirror_symmetry\<close> from the valid mask on. A NaN
  correlation stays NaN through the arithmetic and through \<open>np.clip\<close>.
\<close>

definition compute_mirror_symmetry ::
  "nat list \<Rightarrow> nat list \<Rightarrow> nat list \<Rightarrow> nat list \<Rightarrow> real option" where
  "compute_mirror_symmetry left right_mirror left_mask right_mask_mirror =
     (let valid_mask = valid_pixels left_mask right_mask_mirror
      in if count_valid valid_mask < 10 then Some 0
         else
           (let left_pixels = select_valid left valid_mask;
                right_pixels = select_valid right_mirror valid_mask
            in if length left_pixels < 2 then Some 0
               else
                 (let left_norm = map (\<lambda>x. (x - np_mean left_pixels)
                                              / (np_std left_pixels + 1 / 10 ^ 8)) left_pixels;
                      right_norm = map (\<lambda>x. (x - np_mean right_pixels)
                                              / (np_std right_pixels + 1 / 10 ^ 8)) right_pixels
                  in case corrcoef left_norm right_norm of
                       None \<Rightarrow> None
                     | Some correlation \<Rightarrow>
                         (let symmetry = (correlation + 1) / 2;
                              brightness_diff =
                                \<bar>np_mean left_pixels - np_mean right_pixels\<bar> / 255;
                              brightness_similarity = 1 - brightness_diff;
                              final_score = 0.7 * symmetry + 0.3 * brightness_similarity
                          in Some (min 1 (max 0 final_score))))))"

text \<open>
  Python's \<open>max(a, b)\<close> returns \<open>a\<close> unless \<open>b > a\<close>, and every comparison with NaN is false.
  The outline symmetry is \<open>best_symmetry = max(symmetry_major, symmetry_minor)\<close> of
  \<open>analyze_symmetry\<close>, which \<open>_analyze_outline_symmetry\<close> returns as the score.
\<close>

definition py_max :: "real option \<Rightarrow> real option \<Rightarrow> real option" where
  "py_max a b =
     (case a of
        None \<Rightarrow> None
      | Some x \<Rightarrow> (case b of None \<Rightarrow> Some x | Some y \<Rightarrow> if y > x then Some y else Some x))"

type_synonym halves = "nat list \<times> nat list \<times> nat list \<times> nat list"

definition mirror_symmetry_of :: "halves \<Rightarrow> real option" where
  "mirror_symmetry_of h =
     (case h of (left, right_mirror, left_mask, right_mask_mirror) \<Rightarrow>
        compute_mirror_symmetry left right_mirror left_mask right_mask_mirror)"

definition outline_symmetry :: "halves \<Rightarrow> halves \<Rightarrow> real option" where
  "outline_symmetry major_halves minor_halves =
     py_max (mirror_symmetry_of major_halves) (mirror_symmetry_of minor_halves)"

text \<open>
  \<open>PureGeometricClassifier._analyze_reflection_symmetry\<close>, given the number of reflection
  spots, the zeroth moment of the mask and the halves of the rotated bright-region mask.
  \<open>np.corrcoef\<close> does not raise on two arrays of one length, so the \<open>except\<close> branch (which
  computes the same fallback) is never taken.
\<close>

definition analyze_reflection_symmetry ::
  "nat \<Rightarrow> real \<Rightarrow> nat list \<Rightarrow> nat list \<Rightarrow> nat list \<Rightarrow> nat list \<Rightarrow> real" where
  "analyze_reflection_symmetry num_spots m00 left right_mirror left_mask right_mask_mirror =
     (if num_spots = 0 then 0
      else if m00 = 0 then 0
      else
        (let valid = valid_pixels left_mask right_mask_mirror
         in if count_valid valid < 10 then 0
            else
              (let left_pixels = select_valid left valid;
                   right_pixels = select_valid right_mirror valid
               in if length left_pixels < 2 then 0
                  else
                    (let left_std = np_std left_pixels;
                         right_std = np_std right_pixels;
                         brightness_diff =
                           \<bar>np_mean left_pixels - np_mean right_pixels\<bar> / 255
                     in if left_std < 1 / 10 ^ 6 \<or> right_std < 1 / 10 ^ 6
                        then min 1 (max 0 (1 - brightness_diff))
                        else
                          (let left_norm = map (\<lambda>x. (x - np_mean left_pixels)
                                                       / (left_std + 1 / 10 ^ 8)) left_pixels;
                               right_norm = map (\<lambda>x. (x - np_mean right_pixels)
                                                       / (right_std + 1 / 10 ^ 8)) right_pixels;
                               correlation =
                                 (case corrcoef left_norm right_norm of
                                    None \<Rightarrow> 1 - 2 * brightness_diff
                                  | Some c \<Rightarrow> c);
                               symmetry = (correlation + 1) / 2
                           in min 1 (max 0 symmetry))))))"

text \<open>\<open>PureGeometricClassifier._measure_spot_symmetry\<close>, on the halves of the spot mask.\<close>

definition measure_spot_symmetry ::
  "real \<Rightarrow> nat list \<Rightarrow> nat list \<Rightarrow> nat list \<Rightarrow> nat list \<Rightarrow> real" where
  "measure_spot_symmetry m00 left right_mirror left_mask right_mask_mirror =
     (if m00 = 0 then 0
      else
        (let valid = valid_pixels left_mask right_mask_mirror
         in if count_valid valid < 10 then 0
            else
              (let matching = length (filter (\<lambda>p. fst (fst p) = snd (fst p) \<and> snd p)
                                         (zip (zip left right_mirror) valid));
                   total = count_valid valid
               in if total > 0 then real matching / real total else 0)))"

text \<open>
  \<open>PureGeometricClassifier._calculate_aspect_ratio\<close>, given the number of contour points and
  the axes of the ellipse that \<open>cv2.fitEllipse\<close> returns.
\<close>

definition calculate_aspect_ratio :: "nat \<Rightarrow> real \<times> real \<Rightarrow> real" where
  "calculate_aspect_ratio num_points axes =
     (if num_points < 5 then 0
      else
        (case axes of (major, minor) \<Rightarrow>
           if max major minor > 0 then min major minor / max major minor else 0))"

text \<open>
  The circularity of \<open>analyze_symmetry\<close>, given the area and the arc length of the largest
  contour, or \<open>None\<close> when the mask has no contour.
\<close>

definition circularity_of :: "(real \<times> real) option \<Rightarrow> real" where
  "circularity_of c =
     (case c of
        None \<Rightarrow> 0
      | Some (contour_area, arc_length) \<Rightarrow>
          min (if arc_length > 0 then 4 * pi * contour_area / arc_length\<^sup>2 else 0) 1)"

definition in_unit_interval :: "real option \<Rightarrow> bool" where
  "in_unit_interval v = (case v of None \<Rightarrow> False | Some x \<Rightarrow> 0 \<le> x \<and> x \<le> 1)"

text \<open>
  A patch of uniform brightness 100 whose twelve pixels on each side are all inside the
  mask: the halves as \<open>compute_mirror_symmetry\<close> gets them, for any axis.
\<close>

definition uniform_halves :: halves where
  "uniform_halves = (replicate 12 100, replicate 12 100, replicate 12 255, replicate 12 255)"

section \<open>Properties of rounding to doubles\<close>

text \<open>
  How \<open>to_double\<close> is evaluated: once the argument has been scaled into the range from
  \<open>2\<^sup>5\<^sup>2\<close> to \<open>2\<^sup>5\<^sup>3\<close> the exponent is known, and a square root is rounded by comparing
  squares.
\<close>

lemma binade_scaled:
  assumes "2 ^ 52 \<le> \<bar>x\<bar> * 2 ^ N" and "\<bar>x\<bar> * 2 ^ N < 2 ^ 53"
  shows "binade x = 52 - int N"
proof -
  have pos: "0 < \<bar>x\<bar>"
  proof (rule ccontr)
    assume "\<not> 0 < \<bar>x\<bar>"
    then have "\<bar>x\<bar> = 0" by simp
    with assms(1) show False by simp
  qed
  have p: "2 powr (of_int (52 - int N)) = 2 ^ 52 / (2 ^ N :: real)"
    by (simp add: powr_diff powr_realpow)
  have q: "2 powr (of_int (52 - int N) + 1) = 2 ^ 53 / (2 ^ N :: real)"
    by (simp add: powr_diff powr_add powr_realpow)
  have lo: "2 powr (of_int (52 - int N)) \<le> \<bar>x\<bar>"
    unfolding p using assms(1) by (simp add: divide_le_eq)
  have hi: "\<bar>x\<bar> < 2 powr (of_int (52 - int N) + 1)"
    unfolding q using assms(2) by (simp add: less_divide_eq)
  have "of_int (52 - int N) \<le> log 2 \<bar>x\<bar>" using lo pos by (simp add: le_log_iff)
  moreover have "log 2 \<bar>x\<bar> < of_int (52 - int N) + 1" using hi pos by (simp add: log_less_iff)
  ultimately show ?thesis unfolding binade_def by (rule floor_unique)
qed

lemma to_double_scaled:
  assumes "2 ^ 52 \<le> \<bar>x\<bar> * 2 ^ N" and "\<bar>x\<bar> * 2 ^ N < 2 ^ 53"
  shows "to_double x = of_int (round_half_even (x * 2 ^ N)) / 2 ^ N"
proof -
  have nz: "x \<noteq> 0" using assms(1) by auto
  have b: "binade x - 52 = - int N" using binade_scaled[OF assms] by simp
  have s: "2 powr of_int (- int N) = 1 / (2 ^ N :: real)"
    by (simp add: powr_minus powr_realpow inverse_eq_divide)
  show ?thesis using nz by (simp add: to_double_def b s del: of_int_minus)
qed

lemma to_double_zero: "to_double 0 = 0"
  by (simp add: to_double_def)

lemma round_half_even_between:
  assumes "of_int n - 1 / 2 < y" and "y < of_int n + 1 / 2"
  shows "round_half_even y = n"
proof (cases "of_int n \<le> y")
  case True
  have "\<lfloor>y\<rfloor> = n" using True assms(2) by (intro floor_unique) simp_all
  then show ?thesis using assms(2) by (simp add: round_half_even_def Let_def)
next
  case False
  have "\<lfloor>y\<rfloor> = n - 1" using False assms(1) by (intro floor_unique) simp_all
  then show ?thesis using assms(1) by (simp add: round_half_even_def Let_def)
qed

lemma to_double_sqrt:
  assumes n: "2 ^ 52 < n" "n < 2 ^ 53"
    and lo: "(of_int n - 1 / 2)\<^sup>2 < q * 4 ^ N"
    and hi: "q * 4 ^ N < (of_int n + 1 / 2)\<^sup>2"
  shows "to_double (sqrt q) = of_int n / 2 ^ N"
proof -
  have npos: "(0::real) < of_int n - 1 / 2"
  proof -
    have "(0::int) < 2 ^ 52" by simp
    with n(1) have "1 \<le> n" by linarith
    then have "(1::real) \<le> of_int n" by simp
    then show ?thesis by simp
  qed
  have qpos: "0 < q * 4 ^ N" using lo npos by (meson less_trans zero_less_power)
  then have q0: "0 \<le> q" by (simp add: zero_less_mult_iff less_imp_le)
  have s: "sqrt q * 2 ^ N = sqrt (q * 4 ^ N)"
  proof -
    have "(4::real) ^ N = (2 ^ N)\<^sup>2" by (simp add: power_mult[symmetric] power2_eq_square power_mult_distrib[symmetric])
    then show ?thesis by (simp add: real_sqrt_mult)
  qed
  have l: "of_int n - 1 / 2 < sqrt q * 2 ^ N"
    unfolding s using lo by (rule real_less_rsqrt)
  have h: "sqrt q * 2 ^ N < of_int n + 1 / 2"
    unfolding s using hi npos by (intro real_less_lsqrt) simp_all
  have r: "round_half_even (sqrt q * 2 ^ N) = n" using l h by (rule round_half_even_between)
  have a: "\<bar>sqrt q\<bar> = sqrt q" using q0 by simp
  have n1: "(2::real) ^ 52 + 1 \<le> of_int n"
  proof -
    from n(1) have "2 ^ 52 + 1 \<le> n" by simp
    then have "of_int (2 ^ 52 + 1) \<le> (of_int n :: real)" by (simp only: of_int_le_iff)
    then show ?thesis by simp
  qed
  have n2: "of_int n + 1 \<le> (2::real) ^ 53"
  proof -
    from n(2) have "n + 1 \<le> 2 ^ 53" by simp
    then have "(of_int (n + 1) :: real) \<le> of_int (2 ^ 53)" by (simp only: of_int_le_iff)
    then show ?thesis by simp
  qed
  have b1: "2 ^ 52 \<le> \<bar>sqrt q\<bar> * 2 ^ N" unfolding a using l n1 by linarith
  have b2: "\<bar>sqrt q\<bar> * 2 ^ N < 2 ^ 53" unfolding a using h n2 by linarith
  show ?thesis using to_double_scaled[OF b1 b2] r by simp
qed

section \<open>Properties of the pickup grader\<close>

subsection \<open>The nearest-neighbour scan\<close>

lemma fold_scan_lower:
  "fold (scan_step g t) rs st = (m', q') \<Longrightarrow>
   (\<forall>r\<in>set rs. roi_id r \<noteq> roi_id t \<longrightarrow> (\<exists>m. m' = Some m \<and> m \<le> edge_distance t r)) \<and>
   (\<forall>m. fst st = Some m \<longrightarrow> (\<exists>m2. m' = Some m2 \<and> m2 \<le> m))"
proof (induction rs arbitrary: st m' q')
  case Nil
  then show ?case by auto
next
  case (Cons r rs)
  have f: "fold (scan_step g t) rs (scan_step g t r st) = (m', q')" using Cons.prems by simp
  note ih = Cons.IH[OF f]
  show ?case
  proof (cases "roi_id r = roi_id t")
    case True
    then have "scan_step g t r st = st" by (simp add: scan_step_def)
    with ih True show ?thesis by auto
  next
    case False
    show ?thesis
    proof (cases "fst st")
      case None
      then have "fst (scan_step g t r st) = Some (edge_distance t r)" using False by (simp add: scan_step_def Let_def)
      with ih None show ?thesis by auto
    next
      case (Some m)
      then have "fst (scan_step g t r st) = Some (min m (edge_distance t r))" using False by (auto simp add: scan_step_def Let_def)
      with ih Some show ?thesis by fastforce
    qed
  qed
qed

lemma nearest_lower:
  assumes "n \<in> set rois" "roi_id n \<noteq> roi_id t"
  shows "fst (find_nearest_edge_distance g t rois) \<le> edge_distance t n"
proof -
  obtain m' q' where f: "fold (scan_step g t) rois (None, get_safety_threshold g t) = (m', q')"
    by (cases "fold (scan_step g t) rois (None, get_safety_threshold g t)") auto
  from fold_scan_lower[OF f] assms obtain m where "m' = Some m" "m \<le> edge_distance t n" by blast
  then show ?thesis using f by (simp add: find_nearest_edge_distance_def)
qed

subsection \<open>The grade as a function of the edge distance\<close>

lemma isolation_grade_invalid: "d < t \<Longrightarrow> isolation_grade d t r = - 1"
  by (simp add: isolation_grade_def)

lemma isolation_grade_range:
  "\<not> d < t \<Longrightarrow> 0 \<le> isolation_grade d t r \<and> isolation_grade d t r \<le> 10"
  by (simp add: isolation_grade_def Let_def)

text \<open>
  Claim C6. With the radius and the safety threshold held fixed, the grade computed by
  lines 92 to 103 of \<open>grade_diamonds\<close> is non-decreasing in the edge distance: below the
  threshold it is \<open>-1\<close>, from the threshold on it is a clamped ramp, which is constant 0
  when the threshold exceeds six radii.
\<close>

theorem isolation_grade_mono:
  "d1 \<le> d2 \<Longrightarrow> isolation_grade d1 t r \<le> isolation_grade d2 t r"
proof -
  assume le: "d1 \<le> d2"
  show ?thesis
  proof (cases "d1 < t")
    case True
    show ?thesis
    proof (cases "d2 < t")
      case True
      with \<open>d1 < t\<close> show ?thesis by (simp add: isolation_grade_invalid)
    next
      case False
      from isolation_grade_range[OF False, of r] isolation_grade_invalid[OF True, of r]
      show ?thesis by linarith
    qed
  next
    case False
    with le have d2: "\<not> d2 < t" by simp
    show ?thesis
    proof (cases "6 * r - t = 0")
      case True
      with False d2 le show ?thesis by (simp add: isolation_grade_def Let_def)
    next
      case nz: False
      show ?thesis
      proof (cases "0 < 6 * r - t")
        case True
        with le have "(d1 - t) / (6 * r - t) * 10 \<le> (d2 - t) / (6 * r - t) * 10"
          by (simp add: divide_right_mono)
        then have "min 10 (max 0 ((d1 - t) / (6 * r - t) * 10))
                 \<le> min 10 (max 0 ((d2 - t) / (6 * r - t) * 10))"
          by linarith
        with False d2 nz show ?thesis by (simp add: isolation_grade_def Let_def)
      next
        case neg: False
        with nz have lt: "6 * r - t < 0" by simp
        have "(d1 - t) / (6 * r - t) * 10 \<le> 0" using False lt
          by (simp add: divide_nonneg_neg)
        moreover have "(d2 - t) / (6 * r - t) * 10 \<le> 0" using d2 lt
          by (simp add: divide_nonneg_neg)
        ultimately have "min 10 (max 0 ((d1 - t) / (6 * r - t) * 10))
                 \<le> min 10 (max 0 ((d2 - t) / (6 * r - t) * 10))"
          by linarith
        with False d2 nz show ?thesis by (simp add: isolation_grade_def Let_def)
      qed
    qed
  qed
qed

theorem isolation_grade_mono_witness:
  "(5::real) \<le> 30 \<and> isolation_grade 5 10 20 = - 1 \<and> isolation_grade 30 10 20 = 20 / 11"
  using isolation_grade_mono[of 5 30 10 20] by (simp add: isolation_grade_def)


subsection \<open>The example inputs\<close>

lemma grader_for_width_init:
  "PickupGrader_init (3/2) True ''round'' 100 2 (Some w) = Inr (grader_for_width w)"
  by (simp add: PickupGrader_init_def grader_for_width_def)

lemma disc_radius: "0 \<le> r \<Longrightarrow> roi_radius (disc i c r ori) = r"
  by (simp add: roi_radius_def disc_def real_sqrt_abs)

lemma sqrt_3600: "sqrt 3600 = 60"
  by (rule real_sqrt_unique) simp_all

lemma example_fields:
  "roi_id region_a = 0" "roi_id region_b = 1" "roi_id region_b_tilted = 1"
  "orientation region_a = ''table''" "orientation region_b = ''table''"
  "orientation region_b_tilted = ''tilted''"
  "roi_radius region_a = 20" "roi_radius region_b = 20" "roi_radius region_b_tilted = 20"
  by (simp_all add: region_a_def region_b_def region_b_tilted_def disc_radius)
     (simp_all add: disc_def)

lemma example_edge:
  "edge_distance region_a region_b = 20" "edge_distance region_b region_a = 20"
  "edge_distance region_a region_b_tilted = 20"
  by (simp_all add: edge_distance_def example_fields center_distance_def)
     (simp_all add: region_a_def region_b_def region_b_tilted_def disc_def sqrt_3600)

lemma grade_diamonds_nth:
  "i < length rois \<Longrightarrow> grade_diamonds g rois ! i = grade_one g rois (rois ! i)"
  by (simp add: grade_diamonds_def)

subsection \<open>Tilted regions\<close>

text \<open>
  Claim C5. With orientation checking enabled, a region whose orientation is \<open>tilted\<close> gets
  the grade \<open>None\<close> (not applicable) and no nearest distance, whatever the other regions
  are; and it still counts as an obstacle: the nearest edge distance found for any region
  with another id is at most the edge distance to the tilted region.
\<close>

theorem tilted_not_applicable:
  assumes "check_orientation g" and "i < length rois" and "orientation (rois ! i) = ''tilted''"
  shows "grade (grade_diamonds g rois ! i) = None \<and>
         nearest_distance (grade_diamonds g rois ! i) = None \<and>
         (\<forall>t. roi_id t \<noteq> roi_id (rois ! i) \<longrightarrow>
              fst (find_nearest_edge_distance g t rois) \<le> edge_distance t (rois ! i))"
proof -
  have "grade_one g rois (rois ! i) =
          \<lparr>roi = rois ! i, grade = None, nearest_distance = None, radius = roi_radius (rois ! i)\<rparr>"
    using assms(1,3) by (simp add: grade_one_def)
  then have g: "grade (grade_diamonds g rois ! i) = None"
    and d: "nearest_distance (grade_diamonds g rois ! i) = None"
    using assms(2) by (simp_all add: grade_diamonds_nth)
  have "rois ! i \<in> set rois" using assms(2) by simp
  then have "\<forall>t. roi_id t \<noteq> roi_id (rois ! i) \<longrightarrow>
              fst (find_nearest_edge_distance g t rois) \<le> edge_distance t (rois ! i)"
    using nearest_lower[of "rois ! i" rois] by metis
  with g d show ?thesis by simp
qed

theorem tilted_not_applicable_witness:
  "check_orientation (grader_for_width 500) \<and>
   1 < length [region_a, region_b_tilted] \<and>
   orientation ([region_a, region_b_tilted] ! 1) = ''tilted'' \<and>
   grade (grade_diamonds (grader_for_width 500)
            [region_a, region_b_tilted] ! 1) = None \<and>
   fst (find_nearest_edge_distance (grader_for_width 500) (region_a)
            [region_a, region_b_tilted]) \<le> 20"
proof -
  let ?g = "grader_for_width 500"
  let ?rois = "[region_a, region_b_tilted]"
  have h1: "check_orientation ?g" by (simp add: grader_for_width_def)
  have h2: "1 < length ?rois" by simp
  have h3: "orientation (?rois ! 1) = ''tilted''" by (simp add: example_fields)
  have ids: "roi_id region_a \<noteq> roi_id (?rois ! 1)"
    by (simp add: example_fields)
  from tilted_not_applicable[OF h1 h2 h3] ids
  have "grade (grade_diamonds ?g ?rois ! 1) = None"
    and "fst (find_nearest_edge_distance ?g (region_a) ?rois)
           \<le> edge_distance (region_a) (?rois ! 1)"
    by blast+
  then show ?thesis using h1 h2 h3 by (simp add: example_edge)
qed

subsection \<open>Regions with a neighbour\<close>

lemma fold_scan_fl_lower:
  "fold (scan_step_fl ops g t) rs st = (m', q') \<Longrightarrow>
   (\<forall>r\<in>set rs. roi_id r \<noteq> roi_id t \<longrightarrow> (\<exists>m. m' = Some m \<and> m \<le> edge_distance_fl ops t r)) \<and>
   (\<forall>m. fst st = Some m \<longrightarrow> (\<exists>m2. m' = Some m2 \<and> m2 \<le> m))"
proof (induction rs arbitrary: st m' q')
  case Nil
  then show ?case by auto
next
  case (Cons r rs)
  have f: "fold (scan_step_fl ops g t) rs (scan_step_fl ops g t r st) = (m', q')"
    using Cons.prems by simp
  note ih = Cons.IH[OF f]
  show ?case
  proof (cases "roi_id r = roi_id t")
    case True
    then have "scan_step_fl ops g t r st = st" by (simp add: scan_step_fl_def)
    with ih True show ?thesis by auto
  next
    case False
    show ?thesis
    proof (cases "fst st")
      case None
      then have "fst (scan_step_fl ops g t r st) = Some (edge_distance_fl ops t r)"
        using False by (simp add: scan_step_fl_def Let_def)
      with ih None show ?thesis by auto
    next
      case (Some m)
      then have "fst (scan_step_fl ops g t r st) = Some (min m (edge_distance_fl ops t r))"
        using False by (auto simp add: scan_step_fl_def Let_def)
      with ih Some show ?thesis by fastforce
    qed
  qed
qed

lemma fold_scan_fl_attained:
  "fold (scan_step_fl ops g t) rs st = st \<or>
   (\<exists>n\<in>set rs. roi_id n \<noteq> roi_id t \<and>
      fold (scan_step_fl ops g t) rs st =
        (Some (edge_distance_fl ops t n),
         min (get_safety_threshold_fl ops g t) (get_safety_threshold_fl ops g n)))"
proof (induction rs arbitrary: st)
  case Nil
  then show ?case by simp
next
  case (Cons r rs)
  have step: "scan_step_fl ops g t r st = st \<or>
     (roi_id r \<noteq> roi_id t \<and> scan_step_fl ops g t r st =
        (Some (edge_distance_fl ops t r),
         min (get_safety_threshold_fl ops g t) (get_safety_threshold_fl ops g r)))"
    by (simp add: scan_step_fl_def Let_def)
  from Cons.IH[of "scan_step_fl ops g t r st"] step show ?case by fastforce
qed

lemma nearest_fl_lower:
  assumes "n \<in> set rois" "roi_id n \<noteq> roi_id t"
  shows "fst (find_nearest_edge_distance_fl ops g t rois) \<le> edge_distance_fl ops t n"
proof -
  let ?st = "(None, get_safety_threshold_fl ops g t)"
  obtain m' q' where f: "fold (scan_step_fl ops g t) rois ?st = (m', q')"
    by (cases "fold (scan_step_fl ops g t) rois ?st") auto
  from fold_scan_fl_lower[OF f] assms obtain m where "m' = Some m" "m \<le> edge_distance_fl ops t n"
    by blast
  then show ?thesis using f by (simp add: find_nearest_edge_distance_fl_def)
qed

lemma nearest_fl_attained:
  assumes "\<exists>n\<in>set rois. roi_id n \<noteq> roi_id t"
  shows "\<exists>n\<in>set rois. roi_id n \<noteq> roi_id t \<and>
           find_nearest_edge_distance_fl ops g t rois =
             (edge_distance_fl ops t n,
              min (get_safety_threshold_fl ops g t) (get_safety_threshold_fl ops g n))"
proof -
  let ?st = "(None, get_safety_threshold_fl ops g t)"
  obtain m' q' where f: "fold (scan_step_fl ops g t) rois ?st = (m', q')"
    by (cases "fold (scan_step_fl ops g t) rois ?st") auto
  from fold_scan_fl_lower[OF f] assms obtain m where "m' = Some m" by blast
  then have "fold (scan_step_fl ops g t) rois ?st \<noteq> ?st" using f by simp
  with fold_scan_fl_attained[of ops g t rois ?st] obtain n where
    "n \<in> set rois" "roi_id n \<noteq> roi_id t"
    "fold (scan_step_fl ops g t) rois ?st =
        (Some (edge_distance_fl ops t n),
         min (get_safety_threshold_fl ops g t) (get_safety_threshold_fl ops g n))"
    by blast
  then show ?thesis by (auto simp add: find_nearest_edge_distance_fl_def)
qed

lemma grade_diamonds_fl_nth:
  "i < length rois \<Longrightarrow> grade_diamonds_fl ops g rois ! i = grade_one_fl ops g rois (rois ! i)"
  by (simp add: grade_diamonds_fl_def)

lemma isolation_grade_fl_invalid: "e < t \<Longrightarrow> isolation_grade_fl ops e t r = - 1"
  by (simp add: isolation_grade_fl_def)

lemma isolation_grade_fl_ramp:
  "\<not> e < t \<Longrightarrow> np_sub ops (np_mul ops 6 r) t \<noteq> 0 \<Longrightarrow>
     isolation_grade_fl ops e t r
       = min 10 (max 0 (np_mul ops (np_div ops (np_sub ops e t) (np_sub ops (np_mul ops 6 r) t)) 10))"
  by (simp add: isolation_grade_fl_def Let_def)

lemma isolation_grade_fl_zero_span:
  "\<not> e < t \<Longrightarrow> np_sub ops (np_mul ops 6 r) t = 0 \<Longrightarrow>
     isolation_grade_fl ops e t r = (if 0 < np_sub ops e t then 10 else 0)"
  by (simp add: isolation_grade_fl_def Let_def)

lemma exact_np_sel:
  "np_sqrt exact_np = sqrt" "np_norm exact_np = (\<lambda>v. sqrt ((fst v)\<^sup>2 + (snd v)\<^sup>2))"
  "np_sub exact_np = (-)" "np_mul exact_np = (*)" "np_div exact_np = (/)" "np_pi exact_np = pi"
  by (simp_all add: exact_np_def)

lemma isolation_grade_exact_ramp:
  "\<not> e < t \<Longrightarrow> 6 * r \<noteq> t \<Longrightarrow>
     isolation_grade_fl exact_np e t r = min 10 (max 0 (10 * (e - t) / (6 * r - t)))"
  by (simp add: isolation_grade_fl_def Let_def exact_np_sel mult.commute)

lemma example_fl_fields:
  "roi_radius_fl exact_np region_a = 20" "roi_radius_fl exact_np region_b = 20"
  "get_safety_threshold_fl ops (grader_for_width 500) region_a = 10"
  "get_safety_threshold_fl ops (grader_for_width 500) region_b = 10"
  by (simp_all add: roi_radius_fl_def exact_np_sel get_safety_threshold_fl_def
        grader_for_width_def region_a_def region_b_def disc_def)

lemma example_fl_edge:
  "edge_distance_fl exact_np region_a region_b = 20"
  "edge_distance_fl exact_np region_b region_a = 20"
  by (simp_all add: edge_distance_fl_def example_fl_fields center_distance_fl_def exact_np_sel)
     (simp_all add: region_a_def region_b_def disc_def sqrt_3600)

text \<open>
  Claim C2. For a region that is not tilted and has at least one other region in the list,
  whatever the rounding of the arithmetic: the scan returns the minimum \<open>e\<close> of the computed
  edge distances, attained at some neighbour \<open>n\<close>, and the required threshold \<open>t\<close> is the
  smaller of the two regions' thresholds. The grade is \<open>-1\<close> when \<open>e < t\<close>, and otherwise the
  clamped ramp of \<open>e - t\<close> over the computed span \<open>6 r - t\<close>, times 10; where the span is
  computed as zero the quotient is not a number, and the code returns 10 above the
  threshold and 0 at it. In exact arithmetic the ramp is
  \<open>min 10 (max 0 (10 (e - t) / (6 r - t)))\<close>, and for the two regions of radius 20 centred at
  (100,100) and (160,100), with a threshold of 10 pixels, the edge distance is 20 and both
  grades are \<open>10 (20 - 10) / (120 - 10)\<close>, within 0.005 of 0.91.
\<close>

theorem grade_from_nearest_neighbour:
  "(\<forall>ops g rois i. i < length rois \<longrightarrow> orientation (rois ! i) \<noteq> ''tilted'' \<longrightarrow>
      (\<exists>n\<in>set rois. roi_id n \<noteq> roi_id (rois ! i)) \<longrightarrow>
      (\<exists>n\<in>set rois. roi_id n \<noteq> roi_id (rois ! i) \<and>
         (\<forall>m\<in>set rois. roi_id m \<noteq> roi_id (rois ! i) \<longrightarrow>
              edge_distance_fl ops (rois ! i) n \<le> edge_distance_fl ops (rois ! i) m) \<and>
         nearest_distance (grade_diamonds_fl ops g rois ! i)
           = Some (edge_distance_fl ops (rois ! i) n) \<and>
         (let e = edge_distance_fl ops (rois ! i) n;
              t = min (get_safety_threshold_fl ops g (rois ! i)) (get_safety_threshold_fl ops g n);
              span = np_sub ops (np_mul ops 6 (roi_radius_fl ops (rois ! i))) t
          in (e < t \<longrightarrow> grade (grade_diamonds_fl ops g rois ! i) = Some (- 1)) \<and>
             (\<not> e < t \<longrightarrow> span \<noteq> 0 \<longrightarrow>
                grade (grade_diamonds_fl ops g rois ! i)
                  = Some (min 10 (max 0 (np_mul ops (np_div ops (np_sub ops e t) span) 10)))) \<and>
             (\<not> e < t \<longrightarrow> span = 0 \<longrightarrow>
                grade (grade_diamonds_fl ops g rois ! i)
                  = Some (if 0 < np_sub ops e t then 10 else 0))))) \<and>
   (\<forall>e t r. \<not> e < t \<longrightarrow> 6 * r \<noteq> t \<longrightarrow>
      isolation_grade_fl exact_np e t r = min 10 (max 0 (10 * (e - t) / (6 * r - t)))) \<and>
   (let g = grader_for_width 500; a = region_a; b = region_b
    in get_safety_threshold_fl exact_np g a = 10 \<and> get_safety_threshold_fl exact_np g b = 10 \<and>
       roi_radius_fl exact_np a = 20 \<and> roi_radius_fl exact_np b = 20 \<and>
       edge_distance_fl exact_np a b = 20 \<and>
       map nearest_distance (grade_diamonds_fl exact_np g [a, b]) = [Some 20, Some 20] \<and>
       map grade (grade_diamonds_fl exact_np g [a, b])
         = [Some (10 * (20 - 10) / (120 - 10)), Some (10 * (20 - 10) / (120 - 10))] \<and>
       \<bar>10 * (20 - 10) / (120 - 10) - (0.91::real)\<bar> < 0.005)"
proof (intro conjI allI impI)
  fix ops :: numpy_ops and g :: PickupGrader and rois :: "DiamondROI list" and i :: nat
  assume i: "i < length rois" and nt: "orientation (rois ! i) \<noteq> ''tilted''"
    and ex: "\<exists>n\<in>set rois. roi_id n \<noteq> roi_id (rois ! i)"
  let ?r = "rois ! i"
  from nearest_fl_attained[OF ex, of ops g] obtain n where n: "n \<in> set rois" "roi_id n \<noteq> roi_id ?r"
    and f: "find_nearest_edge_distance_fl ops g ?r rois =
             (edge_distance_fl ops ?r n,
              min (get_safety_threshold_fl ops g ?r) (get_safety_threshold_fl ops g n))"
    by blast
  have low: "\<forall>m\<in>set rois. roi_id m \<noteq> roi_id ?r \<longrightarrow>
               edge_distance_fl ops ?r n \<le> edge_distance_fl ops ?r m"
    using nearest_fl_lower[of _ rois ?r ops g] f by simp
  have go: "grade_diamonds_fl ops g rois ! i =
     \<lparr>roi = ?r,
      grade = Some (isolation_grade_fl ops (edge_distance_fl ops ?r n)
                 (min (get_safety_threshold_fl ops g ?r) (get_safety_threshold_fl ops g n))
                 (roi_radius_fl ops ?r)),
      nearest_distance = Some (edge_distance_fl ops ?r n), radius = roi_radius_fl ops ?r\<rparr>"
    using i nt f by (simp add: grade_diamonds_fl_nth grade_one_fl_def)
  show "\<exists>n\<in>set rois. roi_id n \<noteq> roi_id (rois ! i) \<and>
         (\<forall>m\<in>set rois. roi_id m \<noteq> roi_id (rois ! i) \<longrightarrow>
              edge_distance_fl ops (rois ! i) n \<le> edge_distance_fl ops (rois ! i) m) \<and>
         nearest_distance (grade_diamonds_fl ops g rois ! i)
           = Some (edge_distance_fl ops (rois ! i) n) \<and>
         (let e = edge_distance_fl ops (rois ! i) n;
              t = min (get_safety_threshold_fl ops g (rois ! i)) (get_safety_threshold_fl ops g n);
              span = np_sub ops (np_mul ops 6 (roi_radius_fl ops (rois ! i))) t
          in (e < t \<longrightarrow> grade (grade_diamonds_fl ops g rois ! i) = Some (- 1)) \<and>
             (\<not> e < t \<longrightarrow> span \<noteq> 0 \<longrightarrow>
                grade (grade_diamonds_fl ops g rois ! i)
                  = Some (min 10 (max 0 (np_mul ops (np_div ops (np_sub ops e t) span) 10)))) \<and>
             (\<not> e < t \<longrightarrow> span = 0 \<longrightarrow>
                grade (grade_diamonds_fl ops g rois ! i)
                  = Some (if 0 < np_sub ops e t then 10 else 0)))"
    using n low go
    by (intro bexI[of _ n])
       (simp_all add: Let_def isolation_grade_fl_invalid isolation_grade_fl_ramp
          isolation_grade_fl_zero_span del: min_less_iff_conj)
next
  fix e t r :: real
  assume "\<not> e < t" and "6 * r \<noteq> t"
  then show "isolation_grade_fl exact_np e t r = min 10 (max 0 (10 * (e - t) / (6 * r - t)))"
    by (rule isolation_grade_exact_ramp)
next
  let ?g = "grader_for_width 500"
  note t = example_fl_fields(3,4)[of exact_np]
  note r = example_fl_fields(1,2)
  note ids = example_fields(1,2,4,5)
  have fa: "find_nearest_edge_distance_fl exact_np ?g region_a [region_a, region_b] = (20, 10)"
    by (simp add: find_nearest_edge_distance_fl_def scan_step_fl_def ids t example_fl_edge)
  have fb: "find_nearest_edge_distance_fl exact_np ?g region_b [region_a, region_b] = (20, 10)"
    by (simp add: find_nearest_edge_distance_fl_def scan_step_fl_def ids t example_fl_edge)
  have ig: "isolation_grade_fl exact_np 20 10 20 = 10 / 11"
    by (simp add: isolation_grade_fl_def exact_np_sel)
  have ga: "grade_one_fl exact_np ?g [region_a, region_b] region_a
              = \<lparr>roi = region_a, grade = Some (10 / 11), nearest_distance = Some 20, radius = 20\<rparr>"
    by (simp add: grade_one_fl_def ids fa r ig)
  have gb: "grade_one_fl exact_np ?g [region_a, region_b] region_b
              = \<lparr>roi = region_b, grade = Some (10 / 11), nearest_distance = Some 20, radius = 20\<rparr>"
    by (simp add: grade_one_fl_def ids fb r ig)
  show "let g = grader_for_width 500; a = region_a; b = region_b
    in get_safety_threshold_fl exact_np g a = 10 \<and> get_safety_threshold_fl exact_np g b = 10 \<and>
       roi_radius_fl exact_np a = 20 \<and> roi_radius_fl exact_np b = 20 \<and>
       edge_distance_fl exact_np a b = 20 \<and>
       map nearest_distance (grade_diamonds_fl exact_np g [a, b]) = [Some 20, Some 20] \<and>
       map grade (grade_diamonds_fl exact_np g [a, b])
         = [Some (10 * (20 - 10) / (120 - 10)), Some (10 * (20 - 10) / (120 - 10))] \<and>
       \<bar>10 * (20 - 10) / (120 - 10) - (0.91::real)\<bar> < 0.005"
    unfolding Let_def by (simp add: t r example_fl_edge grade_diamonds_fl_def ga gb)
qed

theorem grade_from_nearest_neighbour_witness:
  "0 < length [region_a, region_b] \<and>
   orientation ([region_a, region_b] ! 0) \<noteq> ''tilted'' \<and>
   (\<exists>n\<in>set [region_a, region_b]. roi_id n \<noteq> roi_id ([region_a, region_b] ! 0)) \<and>
   \<not> (20::real) < 10 \<and> (6::real) * 20 \<noteq> 10 \<and>
   isolation_grade_fl exact_np 20 10 20 = 10 / 11 \<and>
   grade (grade_diamonds_fl exact_np (grader_for_width 500) [region_a, region_b] ! 0)
     = Some (10 / 11)"
proof -
  let ?g = "grader_for_width 500"
  let ?rois = "[region_a, region_b]"
  have h1: "0 < length ?rois" by simp
  have h2: "orientation (?rois ! 0) \<noteq> ''tilted''" by (simp add: example_fields)
  have h3: "\<exists>n\<in>set ?rois. roi_id n \<noteq> roi_id (?rois ! 0)" by (simp add: example_fields)
  have h4: "\<not> (20::real) < 10" and h5: "(6::real) * 20 \<noteq> 10" by simp_all
  note t = example_fl_fields(3,4)[of exact_np]
  from grade_from_nearest_neighbour[THEN conjunct1, rule_format, of 0 ?rois exact_np ?g, OF h1 h2 h3]
  have a: "grade (grade_diamonds_fl exact_np ?g ?rois ! 0) = Some (10 / 11)"
    by (auto simp add: example_fields example_fl_fields example_fl_edge t Let_def exact_np_sel)
  from grade_from_nearest_neighbour[THEN conjunct2, THEN conjunct1, rule_format, of 20 10 20, OF h4 h5]
  have b: "isolation_grade_fl exact_np 20 10 20 = 10 / 11" by simp
  from h1 h2 h3 h4 h5 a b show ?thesis by blast
qed

subsection \<open>Doubles at a distance that ties with the threshold\<close>

text \<open>
  With the double operations the two regions of 3362 pixels have the computed radius
  32.713266992917475 and the computed edge distance 10 exactly, which is not below the
  threshold of 10 pixels: both regions are graded 0, not invalid. (The exact edge distance
  is a little below 10.)
\<close>

lemma ieee_np_sel:
  "np_sqrt ieee_np = (\<lambda>x. to_double (sqrt x))"
  "np_norm ieee_np = (\<lambda>v. to_double (sqrt (to_double (to_double (fst v * fst v)
                                                     + to_double (snd v * snd v)))))"
  "np_sub ieee_np = (\<lambda>x y. to_double (x - y))" "np_mul ieee_np = (\<lambda>x y. to_double (x * y))"
  "np_div ieee_np = (\<lambda>x y. to_double (x / y))"
  "np_pi ieee_np = 884279719003555 / 281474976710656"
  by (simp_all add: ieee_np_def)

lemma tight_value_1:
  "to_double (946318871701225472 / 884279719003555) = 1176650985721837 / 1099511627776"
  by (subst to_double_scaled[where N = 42]) (simp_all add: round_half_even_def Let_def)

lemma tight_value_2:
  "to_double (sqrt (1176650985721837 / 1099511627776)) = 4603983032480459 / 140737488355328"
  using to_double_sqrt[where n = 4603983032480459 and N = 47
      and q = "1176650985721837 / 1099511627776"]
  by (simp add: power2_eq_square)

lemma tight_value_3:
  "to_double (5307670474257099 / 70368744177664) = 5307670474257099 / 70368744177664"
  "to_double (- (5307670474257099 / 70368744177664)) = - (5307670474257099 / 70368744177664)"
  by (subst to_double_scaled[where N = 46], simp_all add: round_half_even_def Let_def)+

lemma tight_value_4:
  "to_double (28171365863300578218455951895801 / 4951760157141521099596496896)
     = 3127649901657545 / 549755813888"
  "to_double (3127649901657545 / 549755813888) = 3127649901657545 / 549755813888"
  by (subst to_double_scaled[where N = 40], simp_all add: round_half_even_def Let_def)+

lemma tight_value_5:
  "to_double (sqrt (3127649901657545 / 549755813888)) = 5307670474257099 / 70368744177664"
  using to_double_sqrt[where n = 5307670474257099 and N = 46
      and q = "3127649901657545 / 549755813888"]
  by (simp add: power2_eq_square)

lemma tight_value_6:
  "to_double (6011357916033739 / 140737488355328) = 6011357916033739 / 140737488355328"
  by (subst to_double_scaled[where N = 47]) (simp_all add: round_half_even_def Let_def)

lemma tight_value_7: "to_double 10 = 10"
  by (subst to_double_scaled[where N = 49]) (simp_all add: round_half_even_def Let_def)

lemma tight_value_8:
  "to_double (13811949097441377 / 70368744177664) = 431623409295043 / 2199023255552"
  "to_double (409633176739523 / 2199023255552) = 409633176739523 / 2199023255552"
  by (subst to_double_scaled[where N = 45], simp_all add: round_half_even_def Let_def)+

lemmas tight_values = to_double_zero tight_value_1 tight_value_2 tight_value_3 tight_value_4
  tight_value_5 tight_value_6 tight_value_7 tight_value_8

lemma tight_radius:
  "roi_radius_fl ieee_np tight_a = 4603983032480459 / 140737488355328"
  "roi_radius_fl ieee_np tight_b = 4603983032480459 / 140737488355328"
  by (simp_all add: roi_radius_fl_def ieee_np_sel tight_a_def tight_b_def tight_region_def
        tight_values)

lemma tight_edge:
  "edge_distance_fl ieee_np tight_a tight_b = 10" "edge_distance_fl ieee_np tight_b tight_a = 10"
  by (simp_all add: edge_distance_fl_def tight_radius center_distance_fl_def ieee_np_sel)
     (simp_all add: tight_a_def tight_b_def tight_region_def tight_values)

lemma tight_grade: "isolation_grade_fl ieee_np 10 10 (4603983032480459 / 140737488355328) = 0"
  by (simp add: isolation_grade_fl_def ieee_np_sel tight_values Let_def)

lemma threshold_tie:
  "map nearest_distance (grade_diamonds_fl ieee_np (grader_for_width 500) [tight_a, tight_b])
     = [Some 10, Some 10] \<and>
   map grade (grade_diamonds_fl ieee_np (grader_for_width 500) [tight_a, tight_b])
     = [Some 0, Some 0]"
proof -
  let ?g = "grader_for_width 500"
  have ids: "roi_id tight_a = 0" "roi_id tight_b = 1" "orientation tight_a = ''table''"
    "orientation tight_b = ''table''"
    by (simp_all add: tight_a_def tight_b_def tight_region_def)
  have t: "get_safety_threshold_fl ieee_np ?g tight_a = 10"
    "get_safety_threshold_fl ieee_np ?g tight_b = 10"
    by (simp_all add: get_safety_threshold_fl_def grader_for_width_def)
  have fa: "find_nearest_edge_distance_fl ieee_np ?g tight_a [tight_a, tight_b] = (10, 10)"
    by (simp add: find_nearest_edge_distance_fl_def scan_step_fl_def ids t tight_edge)
  have fb: "find_nearest_edge_distance_fl ieee_np ?g tight_b [tight_a, tight_b] = (10, 10)"
    by (simp add: find_nearest_edge_distance_fl_def scan_step_fl_def ids t tight_edge)
  have ga: "grade_one_fl ieee_np ?g [tight_a, tight_b] tight_a
      = \<lparr>roi = tight_a, grade = Some 0, nearest_distance = Some 10,
          radius = 4603983032480459 / 140737488355328\<rparr>"
    by (simp add: grade_one_fl_def ids fa tight_radius tight_grade)
  have gb: "grade_one_fl ieee_np ?g [tight_a, tight_b] tight_b
      = \<lparr>roi = tight_b, grade = Some 0, nearest_distance = Some 10,
          radius = 4603983032480459 / 140737488355328\<rparr>"
    by (simp add: grade_one_fl_def ids fb tight_radius tight_grade)
  show ?thesis by (simp add: grade_diamonds_fl_def ga gb)
qed

subsection \<open>Exact arithmetic as an instance\<close>

lemma grade_diamonds_fl_exact: "grade_diamonds_fl exact_np g rois = grade_diamonds g rois"
proof -
  have r: "roi_radius_fl exact_np x = roi_radius x" for x
    by (simp add: roi_radius_fl_def roi_radius_def exact_np_sel)
  have t: "get_safety_threshold_fl exact_np g x = get_safety_threshold g x" for x
    by (simp add: get_safety_threshold_fl_def get_safety_threshold_def r exact_np_sel Let_def
          split: option.split)
  have e: "edge_distance_fl exact_np x y = edge_distance x y" for x y
    by (simp add: edge_distance_fl_def edge_distance_def center_distance_fl_def
          center_distance_def r exact_np_sel)
  have s: "scan_step_fl exact_np g x = scan_step g x" for x
    by (intro ext) (simp add: scan_step_fl_def scan_step_def e t Let_def split: option.split)
  have f: "find_nearest_edge_distance_fl exact_np g x rois = find_nearest_edge_distance g x rois"
    for x
    by (simp add: find_nearest_edge_distance_fl_def find_nearest_edge_distance_def s t)
  have i: "isolation_grade_fl exact_np d q w = isolation_grade d q w" for d q w
    by (simp add: isolation_grade_fl_def isolation_grade_def Let_def exact_np_sel)
  have "grade_one_fl exact_np g rois x = grade_one g rois x" for x
    by (simp add: grade_one_fl_def grade_one_def f i r)
  then show ?thesis by (simp add: grade_diamonds_fl_def grade_diamonds_def)
qed

subsection \<open>A region alone in its image\<close>

lemma grader_without_width_init:
  "PickupGrader_init (3/2) True ''round'' 100 2 None = Inr grader_without_width"
  by (simp add: PickupGrader_init_def grader_without_width_def)

lemma lone_region_scan:
  "list_all (\<lambda>r. roi_id r = roi_id t) rois \<Longrightarrow>
     find_nearest_edge_distance g t rois = (0, get_safety_threshold g t)"
proof -
  assume a: "list_all (\<lambda>r. roi_id r = roi_id t) rois"
  have "fold (scan_step g t) rois st = st" for st
    using a by (induction rois arbitrary: st) (simp_all add: scan_step_def)
  then show ?thesis by (simp add: find_nearest_edge_distance_def)
qed

lemma lone_region_invalid:
  assumes "list_all (\<lambda>r. roi_id r = roi_id t) rois"
    and "\<not> (check_orientation g \<and> orientation t = ''tilted'')"
    and "0 < get_safety_threshold g t"
  shows "grade (grade_one g rois t) = Some (- 1)"
  using assms by (simp add: grade_one_def lone_region_scan isolation_grade_def)

text \<open>
  Claim C1. For a region with no other region in the list the scan does not return an
  infinite distance: \<open>_find_nearest_edge_distance\<close> replaces \<open>float('inf')\<close> by \<open>0.0\<close>
  and returns the region's own threshold. With a positive threshold the distance 0 is
  below it, so the grade of the lone region is \<open>-1\<close> (invalid), not 10; evaluated here for
  a table-up round region of radius 20, both with the pixel threshold of a 1000 pixel wide
  image (20 px) and with the radius-based threshold.
\<close>

theorem lone_region_graded_invalid:
  "find_nearest_edge_distance (grader_for_width 1000) region_a [region_a] = (0, 20) \<and>
   map grade (grade_diamonds (grader_for_width 1000) [region_a]) = [Some (- 1)] \<and>
   find_nearest_edge_distance grader_without_width region_a [region_a] = (0, 20) \<and>
   map grade (grade_diamonds grader_without_width [region_a]) = [Some (- 1)]"
proof -
  have t: "get_safety_threshold (grader_for_width 1000) region_a = 20"
    by (simp add: get_safety_threshold_def grader_for_width_def)
  have t': "get_safety_threshold grader_without_width region_a = 20"
    by (simp add: get_safety_threshold_def grader_without_width_def example_fields)
       (simp add: region_a_def disc_def)
  have f: "find_nearest_edge_distance (grader_for_width 1000) region_a [region_a] = (0, 20)"
    by (simp add: find_nearest_edge_distance_def scan_step_def t)
  have f': "find_nearest_edge_distance grader_without_width region_a [region_a] = (0, 20)"
    by (simp add: find_nearest_edge_distance_def scan_step_def t')
  have "grade (grade_one (grader_for_width 1000) [region_a] region_a) = Some (- 1)"
    by (simp add: grade_one_def example_fields f isolation_grade_def)
  moreover have "grade (grade_one grader_without_width [region_a] region_a) = Some (- 1)"
    by (simp add: grade_one_def example_fields f' isolation_grade_def)
  ultimately show ?thesis using f f' by (simp add: grade_diamonds_def)
qed

section \<open>Properties of the rule-based decision\<close>

lemma default_thresholds:
  "outline_sym_threshold (default_classifier ops) = fl_lit ops 0.70"
  "reflection_sym_threshold (default_classifier ops) = fl_lit ops 0.65"
  "spot_sym_threshold (default_classifier ops) = fl_lit ops 0.60"
  "aspect_ratio_threshold (default_classifier ops) = fl_lit ops 0.58"
  by (simp_all add: default_classifier_def)

lemma weak_count_as_filter:
  "(if a then 1 else 0) + (if b then 1 else 0) + (if c then (1::nat) else 0)
     = length (filter id [a, b, c])"
  by simp

lemma nested_if_as_conj:
  "(if a then (if b then x else y) else y) = (if a \<and> b then x else y)"
  by simp

text \<open>
  Claim C4. With the constructor's default thresholds, \<open>_make_decision\<close> computes the
  documented three-rule policy on every input, NaN included, whatever the float
  arithmetic is (so for Python's doubles as for exact arithmetic): rule 1 (all three
  primary metrics strong) gives table with the mean as confidence, rule 2 (at least two
  weak metrics) gives tilted with one minus the mean, and rule 3 decides on the weighted
  score, blended with a qualifying spot only within 0.05 of the 0.60 boundary.
\<close>

theorem make_decision_is_policy:
  "make_decision ops (default_classifier ops) outline reflection has_spot spot_sym aspect
     = policy_decision ops outline reflection aspect (has_spot, spot_sym)"
proof -
  have three: "fl_lit ops 3.0 = fl_lit ops 3" and one: "fl_lit ops 1.0 = fl_lit ops 1"
    by simp_all
  show ?thesis
    unfolding make_decision_def policy_decision_def default_thresholds weak_count_as_filter
      nested_if_as_conj mean3_def weak_metrics_def qualifying_spot_def weighted_score_def
      fst_conv snd_conv Let_def three one
    by (rule refl)
qed

text \<open>In exact arithmetic the policy is the three rules over the real numbers.\<close>

lemma policy_over_reals:
  "policy_decision real_ops outline reflection aspect (has_spot, spot_sym) =
     (if outline \<ge> 0.70 \<and> reflection \<ge> 0.65 \<and> aspect \<ge> 0.58
      then (''table'', (outline + reflection + aspect) / 3)
      else if length (filter id [outline < 0.60, reflection < 0.55, aspect < 0.52]) \<ge> 2
      then (''tilted'', 1 - (outline + reflection + aspect) / 3)
      else
        (let score = 0.25 * outline + 0.35 * reflection + 0.40 * aspect;
             final = (if \<bar>score - 0.60\<bar> < 0.05 \<and> has_spot \<and> spot_sym \<ge> 0.60
                      then 0.7 * score + 0.3 * spot_sym else score)
         in if final \<ge> 0.60 then (''table'', final) else (''tilted'', 1 - final)))"
proof -
  have sel: "fl_lit real_ops = (\<lambda>x. x)" "fl_add real_ops = (+)" "fl_sub real_ops = (-)"
    "fl_mul real_ops = (*)" "fl_div real_ops = (/)" "fl_abs real_ops = abs"
    "fl_lt real_ops = (<)" "fl_ge real_ops = (\<ge>)"
    by (simp_all add: real_ops_def)
  show ?thesis
    unfolding policy_decision_def mean3_def weak_metrics_def qualifying_spot_def
      weighted_score_def sel fst_conv snd_conv
    by (rule refl)
qed

subsection \<open>Doubles at the boundaries of the rules\<close>

text \<open>
  The decision on two inputs at the boundaries of rule 3, in doubles and in exact
  arithmetic. On the first the weighted score is 0.55 exactly, so \<open>|score - 0.60|\<close> is
  0.05 and the spot is not blended in, but in doubles it is computed as a little less and
  the blend makes the region table with confidence 0.61. On the second the score is 0.6
  exactly, but is computed as 0.5999999999999999, below the boundary. A NaN outline score
  fails every comparison and gives tilted with a NaN confidence.
\<close>

lemma double_value_1: "to_double (7 / 10) = 3152519739159347 / 4503599627370496"
  by (subst to_double_scaled[where N = 53]) (simp_all add: round_half_even_def Let_def)

lemma double_value_2: "to_double (13 / 20) = 5854679515581645 / 9007199254740992"
  by (subst to_double_scaled[where N = 53]) (simp_all add: round_half_even_def Let_def)

lemma double_value_3: "to_double (29 / 50) = 5224175567749775 / 9007199254740992"
  by (subst to_double_scaled[where N = 53]) (simp_all add: round_half_even_def Let_def)

lemma double_value_4: "to_double (3 / 5) = 5404319552844595 / 9007199254740992"
  by (subst to_double_scaled[where N = 53]) (simp_all add: round_half_even_def Let_def)

lemma double_value_5: "to_double (11 / 20) = 2476979795053773 / 4503599627370496"
  by (subst to_double_scaled[where N = 53]) (simp_all add: round_half_even_def Let_def)

lemma double_value_6: "to_double (13 / 25) = 1170935903116329 / 2251799813685248"
  by (subst to_double_scaled[where N = 53]) (simp_all add: round_half_even_def Let_def)

lemma double_value_7: "to_double (1 / 4) = 1 / 4"
  by (subst to_double_scaled[where N = 54]) (simp_all add: round_half_even_def Let_def)

lemma double_value_8: "to_double (7 / 20) = 3152519739159347 / 9007199254740992"
  by (subst to_double_scaled[where N = 54]) (simp_all add: round_half_even_def Let_def)

lemma double_value_9: "to_double (15762598695796735 / 72057594037927936) = 7 / 32"
  by (subst to_double_scaled[where N = 55]) (simp_all add: round_half_even_def Let_def)

lemma double_value_10: "to_double (7 / 32) = 7 / 32"
  by (subst to_double_scaled[where N = 55]) (simp_all add: round_half_even_def Let_def)

lemma double_value_11: "to_double (2 / 5) = 3602879701896397 / 9007199254740992"
  by (subst to_double_scaled[where N = 54]) (simp_all add: round_half_even_def Let_def)

lemma double_value_12: "to_double (190952624200509041 / 576460752303423488) = 1491817376566477 / 4503599627370496"
  by (subst to_double_scaled[where N = 54]) (simp_all add: round_half_even_def Let_def)

lemma double_value_13: "to_double (2476979795053773 / 4503599627370496) = 2476979795053773 / 4503599627370496"
  by (subst to_double_scaled[where N = 53]) (simp_all add: round_half_even_def Let_def)

lemma double_value_14: "to_double (- (450359962737049 / 9007199254740992)) = - (450359962737049 / 9007199254740992)"
  by (subst to_double_scaled[where N = 57]) (simp_all add: round_half_even_def Let_def)

lemma double_value_15: "to_double (1 / 20) = 3602879701896397 / 72057594037927936"
  by (subst to_double_scaled[where N = 57]) (simp_all add: round_half_even_def Let_def)

lemma double_value_16: "to_double (7808727697405893248327680566231 / 20282409603651670423947251286016) = 1733885856537641 / 4503599627370496"
  by (subst to_double_scaled[where N = 54]) (simp_all add: round_half_even_def Let_def)

lemma double_value_17: "to_double (3 / 10) = 5404319552844595 / 18014398509481984"
  by (subst to_double_scaled[where N = 54]) (simp_all add: round_half_even_def Let_def)

lemma double_value_18: "to_double (16212958658533785 / 72057594037927936) = 2026619832316723 / 9007199254740992"
  by (subst to_double_scaled[where N = 55]) (simp_all add: round_half_even_def Let_def)

lemma double_value_19: "to_double (5494391545392005 / 9007199254740992) = 5494391545392005 / 9007199254740992"
  by (subst to_double_scaled[where N = 53]) (simp_all add: round_half_even_def Let_def)

lemma double_value_20: "to_double (49 / 256) = 49 / 256"
  by (subst to_double_scaled[where N = 55]) (simp_all add: round_half_even_def Let_def)

lemma double_value_21: "to_double (192303704088720167 / 576460752303423488) = 6009490752772505 / 18014398509481984"
  by (subst to_double_scaled[where N = 54]) (simp_all add: round_half_even_def Let_def)

lemma double_value_22: "to_double (9457559217478041 / 18014398509481984) = 1182194902184755 / 2251799813685248"
  by (subst to_double_scaled[where N = 53]) (simp_all add: round_half_even_def Let_def)

lemma double_value_23: "to_double (10808639105689191 / 144115188075855872) = 1351079888211149 / 18014398509481984"
  by (subst to_double_scaled[where N = 56]) (simp_all add: round_half_even_def Let_def)

lemma double_value_24: "to_double (10808639105689189 / 18014398509481984) = 2702159776422297 / 4503599627370496"
  by (subst to_double_scaled[where N = 53]) (simp_all add: round_half_even_def Let_def)

lemma double_value_25: "to_double (- (1 / 9007199254740992)) = - (1 / 9007199254740992)"
  by (subst to_double_scaled[where N = 105]) (simp_all add: round_half_even_def Let_def)

lemma double_value_26: "to_double 1 = 1"
  by (subst to_double_scaled[where N = 52]) (simp_all add: round_half_even_def Let_def)

lemma double_value_27: "to_double (1801439850948199 / 4503599627370496) = 1801439850948199 / 4503599627370496"
  by (subst to_double_scaled[where N = 54]) (simp_all add: round_half_even_def Let_def)

lemmas double_values = to_double_zero double_value_1 double_value_2 double_value_3 double_value_4 double_value_5 double_value_6 double_value_7 double_value_8 double_value_9 double_value_10 double_value_11 double_value_12 double_value_13 double_value_14 double_value_15 double_value_16 double_value_17 double_value_18 double_value_19 double_value_20 double_value_21 double_value_22 double_value_23 double_value_24 double_value_25 double_value_26 double_value_27

lemma double_ops_sel:
  "fl_lit double_ops = (\<lambda>x. Some (to_double x))"
  "fl_add double_ops = lift_op (+)" "fl_sub double_ops = lift_op (-)"
  "fl_mul double_ops = lift_op (*)"
  "fl_div double_ops = (\<lambda>a b. if b = Some 0 then None else lift_op (/) a b)"
  "fl_abs double_ops = map_option abs" "fl_lt double_ops = lift_cmp (<)"
  "fl_ge double_ops = lift_cmp (\<ge>)"
  by (simp_all add: double_ops_def)

lemma boundary_blend:
  "make_decision double_ops (default_classifier double_ops)
      (Some 0) (Some (5 / 8)) True (Some (3 / 4)) (Some (53 / 64))
     = (''table'', Some (5494391545392005 / 9007199254740992))"
  by (simp add: make_decision_def default_thresholds double_ops_sel lift_op_def lift_cmp_def
        double_values Let_def)

lemma boundary_score:
  "make_decision double_ops (default_classifier double_ops)
      (Some (49 / 64)) (Some (61 / 64)) False (Some 0) (Some (3 / 16))
     = (''tilted'', Some (1801439850948199 / 4503599627370496))"
  by (simp add: make_decision_def default_thresholds double_ops_sel lift_op_def lift_cmp_def
        double_values Let_def)

lemma boundary_exact:
  "make_decision real_ops (default_classifier real_ops) 0 (5 / 8) True (3 / 4) (53 / 64)
     = (''tilted'', 9 / 20)"
  "make_decision real_ops (default_classifier real_ops) (49 / 64) (61 / 64) False 0 (3 / 16)
     = (''table'', 3 / 5)"
  by (simp_all add: make_decision_def default_thresholds real_ops_def Let_def)

lemma nan_outline:
  "make_decision double_ops (default_classifier double_ops)
      None (Some (5 / 8)) True (Some (3 / 4)) (Some (53 / 64)) = (''tilted'', None)"
  by (simp add: make_decision_def default_thresholds double_ops_sel lift_op_def lift_cmp_def
        double_values Let_def)

section \<open>Properties of the detector post-processing\<close>

subsection \<open>The scan for nested regions\<close>

lemma nested_in_some_iff:
  "nested_in_some inside i r rem xs \<longleftrightarrow>
     (\<exists>p\<in>set xs. fst p \<noteq> i \<and> fst p \<notin> rem \<and> nested_in inside r (snd p))"
  by (induction xs) (auto simp add: nested_in_def split: if_splits)

lemma nested_step_mono: "rem \<subseteq> nested_step inside rois k rem"
  by (auto simp add: nested_step_def)

lemma fold_nested_mono: "rem \<subseteq> fold (nested_step inside rois) ks rem"
proof (induction ks arbitrary: rem)
  case Nil
  show ?case by simp
next
  case (Cons a ks)
  have "rem \<subseteq> nested_step inside rois a rem" by (rule nested_step_mono)
  also have "\<dots> \<subseteq> fold (nested_step inside rois) ks (nested_step inside rois a rem)"
    by (rule Cons.IH)
  finally show ?case by simp
qed

lemma fold_nested_bound:
  "k \<in> fold (nested_step inside rois) ks rem \<Longrightarrow> k \<in> rem \<or> k \<in> set ks"
proof (induction ks arbitrary: rem)
  case Nil
  then show ?case by simp
next
  case (Cons a ks)
  from Cons.IH[of "nested_step inside rois a rem"] Cons.prems
  show ?case by (auto simp add: nested_step_def split: if_splits)
qed


lemma nested_step_decides:
  "i \<in> nested_step inside rois i rem \<longleftrightarrow>
     i \<in> rem \<or> nested_in_some inside i (rois ! i) rem (enumerate 0 rois)"
  by (simp add: nested_step_def)

lemma nested_step_other: "k \<noteq> i \<Longrightarrow> k \<in> nested_step inside rois i rem \<longleftrightarrow> k \<in> rem"
  by (simp add: nested_step_def)

lemma fold_nested_other:
  "k \<notin> set ks \<Longrightarrow> k \<in> fold (nested_step inside rois) ks rem \<longleftrightarrow> k \<in> rem"
  using fold_nested_bound[of k inside rois ks rem] fold_nested_mono[of rem inside rois ks]
  by auto

text \<open>The set of indices removed before the outer loop reaches index \<open>i\<close>.\<close>

lemma nested_indices_split:
  assumes "i < length rois"
  shows "i \<in> nested_indices inside rois \<longleftrightarrow>
           nested_in_some inside i (rois ! i)
             (fold (nested_step inside rois) [0..<i] {}) (enumerate 0 rois)"
    and "fold (nested_step inside rois) [0..<i] {} = nested_indices inside rois \<inter> {..<i}"
proof -
  let ?f = "nested_step inside rois"
  let ?before = "fold ?f [0..<i] {}"
  have parts: "[0..<length rois] = [0..<i] @ i # [Suc i..<length rois]"
  proof -
    have "[0..<length rois] = [0..<i] @ [i..<length rois]"
      using assms upt_add_eq_append[of 0 i "length rois - i"] by simp
    also have "[i..<length rois] = i # [Suc i..<length rois]"
      using assms by (simp add: upt_conv_Cons)
    finally show ?thesis .
  qed
  have all: "nested_indices inside rois = fold ?f [Suc i..<length rois] (?f i ?before)"
    unfolding nested_indices_def by (subst parts) simp
  have notin: "i \<notin> ?before" using fold_nested_bound[of i inside rois "[0..<i]" "{}"] by auto
  have "i \<in> nested_indices inside rois \<longleftrightarrow> i \<in> ?f i ?before"
    unfolding all by (rule fold_nested_other) simp
  then show "i \<in> nested_indices inside rois \<longleftrightarrow>
           nested_in_some inside i (rois ! i) ?before (enumerate 0 rois)"
    using notin by (simp add: nested_step_decides)
  show "?before = nested_indices inside rois \<inter> {..<i}"
  proof (rule set_eqI)
    fix k
    show "k \<in> ?before \<longleftrightarrow> k \<in> nested_indices inside rois \<inter> {..<i}"
    proof (cases "k < i")
      case True
      then have "k \<in> nested_indices inside rois \<longleftrightarrow> k \<in> ?f i ?before"
        unfolding all by (intro fold_nested_other) simp
      also have "\<dots> \<longleftrightarrow> k \<in> ?before" using True by (simp add: nested_step_other)
      finally show ?thesis using True by simp
    next
      case False
      then have "k \<notin> ?before" using fold_nested_bound[of k inside rois "[0..<i]" "{}"] by auto
      with False show ?thesis by simp
    qed
  qed
qed

lemma nested_is_removed:
  assumes i: "i < length rois" and j: "j < length rois"
    and n: "nested_in inside (rois ! i) (rois ! j)"
    and late: "i < j \<or> j \<notin> nested_indices inside rois"
  shows "i \<in> nested_indices inside rois"
proof -
  let ?before = "fold (nested_step inside rois) [0..<i] {}"
  have ne: "j \<noteq> i" using n by (auto simp add: nested_in_def)
  have b: "?before = nested_indices inside rois \<inter> {..<i}"
    by (rule nested_indices_split(2)[OF i])
  have nb: "j \<notin> ?before" unfolding b using late by auto
  have mem: "(j, rois ! j) \<in> set (enumerate 0 rois)" using j by (simp add: in_set_enumerate_eq)
  have "nested_in_some inside i (rois ! i) ?before (enumerate 0 rois)"
    unfolding nested_in_some_iff using mem ne nb n
    by (intro bexI[of _ "(j, rois ! j)"]) simp_all
  then show ?thesis using nested_indices_split(1)[OF i, of inside] by simp
qed


subsection \<open>Ids and order of the surviving regions\<close>

lemma upt_from_head: "[k..<Suc (k + n)] = k # [Suc k..<Suc (k + n)]"
  by (simp add: upt_conv_Cons del: upt_Suc)

lemma build_rois_from_length: "length (build_rois_from k ms) = length ms"
  by (induction ms arbitrary: k) simp_all

lemma build_rois_from_ids: "map roi_id (build_rois_from k ms) = [k..<k + length ms]"
  by (induction ms arbitrary: k) (simp_all add: make_roi_def Let_def upt_from_head del: upt_Suc)

lemma renumber_length: "length (renumber k rs) = length rs"
  by (induction rs arbitrary: k) simp_all

lemma renumber_nth: "p < length rs \<Longrightarrow> renumber k rs ! p = (rs ! p)\<lparr>roi_id := k + p\<rparr>"
proof (induction rs arbitrary: k p)
  case Nil
  then show ?case by simp
next
  case (Cons r rs)
  then show ?case by (cases p) simp_all
qed

lemma renumber_ids: "map roi_id (renumber k rs) = [k..<k + length rs]"
  by (induction rs arbitrary: k) (simp_all add: upt_from_head del: upt_Suc)

lemma renumber_same: "map roi_id rs = [k..<k + length rs] \<Longrightarrow> renumber k rs = rs"
proof (induction rs arbitrary: k)
  case Nil
  then show ?case by simp
next
  case (Cons r rs)
  from Cons.prems have "roi_id r = k" and "map roi_id rs = [Suc k..<Suc k + length rs]"
    by (simp_all add: upt_from_head del: upt_Suc)
  with Cons.IH[of "Suc k"] show ?case by simp
qed

lemma filtered_by_index:
  "map snd (filter (\<lambda>p. fst p \<notin> S) (enumerate 0 xs))
     = map ((!) xs) (filter (\<lambda>k. k \<notin> S) [0..<length xs])"
proof -
  have "enumerate 0 xs = map (\<lambda>k. (k, xs ! k)) [0..<length xs]"
    by (rule nth_equalityI) (simp_all add: nth_enumerate_eq)
  then show ?thesis by (simp add: filter_map comp_def)
qed

lemma nested_indices_short: "length rois \<le> 1 \<Longrightarrow> nested_indices inside rois = {}"
proof (cases rois)
  case Nil
  then show ?thesis by (simp add: nested_indices_def)
next
  case (Cons r rs)
  assume "length rois \<le> 1"
  with Cons have "rois = [r]" by simp
  then show ?thesis by (simp add: nested_indices_def nested_step_def)
qed

lemma remove_nested_rois_eq:
  assumes "map roi_id rois = [0..<length rois]"
  shows "remove_nested_rois inside rois
           = renumber 0 (map ((!) rois) (filter (\<lambda>k. k \<notin> nested_indices inside rois) [0..<length rois]))"
proof (cases "length rois \<le> 1")
  case True
  then have "nested_indices inside rois = {}" by (rule nested_indices_short)
  then have "map ((!) rois) (filter (\<lambda>k. k \<notin> nested_indices inside rois) [0..<length rois]) = rois"
    by (simp add: map_nth)
  moreover have "renumber 0 rois = rois" using assms by (intro renumber_same) simp
  ultimately show ?thesis using True by (simp add: remove_nested_rois_def)
next
  case False
  then show ?thesis by (simp add: remove_nested_rois_def Let_def filtered_by_index)
qed


lemma build_rois_ids: "map roi_id (build_rois ms) = [0..<length (build_rois ms)]"
  by (simp add: build_rois_def build_rois_from_ids build_rois_from_length)

text \<open>
  Claim C8, as the code has it. Let \<open>rois\<close> be the regions \<open>detect\<close> has built, in detection
  order, \<open>gone\<close> the indices that \<open>_remove_nested_rois\<close> collects and \<open>kept\<close> the others in
  increasing order. If the region at index \<open>i\<close> is smaller than the one at index \<open>j\<close>, has
  its centroid inside that one's contour and its bounding box within that one's bounding
  box, then it does not survive, provided the region at \<open>j\<close> survives or comes later in
  detection order (a container already removed when \<open>i\<close> is examined is skipped by the scan).
  The result holds exactly the kept regions, in detection order, with the ids
  \<open>0, \<dots>, n - 1\<close>.
\<close>

theorem nested_removal:
  "let rois = build_rois ms;
       gone = nested_indices inside rois;
       kept = filter (\<lambda>k. k \<notin> gone) [0..<length rois];
       out = detect_rois inside ms
   in (\<forall>i j. i < length rois \<longrightarrow> j < length rois \<longrightarrow>
          nested_in inside (rois ! i) (rois ! j) \<longrightarrow> (i < j \<or> j \<in> set kept) \<longrightarrow> i \<notin> set kept) \<and>
      length out = length kept \<and>
      (\<forall>p < length kept. out ! p = (rois ! (kept ! p))\<lparr>roi_id := p\<rparr>) \<and>
      map roi_id out = [0..<length out] \<and>
      sorted_wrt (<) kept"
proof -
  let ?rois = "build_rois ms"
  let ?gone = "nested_indices inside ?rois"
  let ?kept = "filter (\<lambda>k. k \<notin> ?gone) [0..<length ?rois]"
  let ?out = "detect_rois inside ms"
  have out: "?out = renumber 0 (map ((!) ?rois) ?kept)"
    unfolding detect_rois_def by (rule remove_nested_rois_eq[OF build_rois_ids])
  have pairs: "\<forall>i j. i < length ?rois \<longrightarrow> j < length ?rois \<longrightarrow>
          nested_in inside (?rois ! i) (?rois ! j) \<longrightarrow> (i < j \<or> j \<in> set ?kept) \<longrightarrow> i \<notin> set ?kept"
  proof (intro allI impI)
    fix i j
    assume i: "i < length ?rois" and j: "j < length ?rois"
      and n: "nested_in inside (?rois ! i) (?rois ! j)" and l: "i < j \<or> j \<in> set ?kept"
    from l have "i < j \<or> j \<notin> ?gone" by auto
    from nested_is_removed[OF i j n this] show "i \<notin> set ?kept" by simp
  qed
  have len: "length ?out = length ?kept" by (simp add: out renumber_length)
  have nth: "\<forall>p < length ?kept. ?out ! p = (?rois ! (?kept ! p))\<lparr>roi_id := p\<rparr>"
    by (simp add: out renumber_nth)
  have ids: "map roi_id ?out = [0..<length ?out]"
    by (simp add: out renumber_ids renumber_length)
  have srt: "sorted_wrt (<) ?kept" by (intro sorted_wrt_filter) simp
  from pairs len nth ids srt show ?thesis unfolding Let_def by blast
qed


subsection \<open>Three overlapping masks\<close>

lemma overlapping_rois:
  "build_rois overlapping_masks
     = [make_roi 0 mid_square, make_roi 1 big_pentagon, make_roi 2 small_square]"
  by (simp add: build_rois_def overlapping_masks_def numeral_2_eq_2)

lemma overlapping_fields:
  "area (make_roi a mid_square) = 1296" "area (make_roi b big_pentagon) = 9200"
  "area (make_roi c small_square) = 100"
  "center (make_roi a mid_square) = (155 / 2, 155 / 2)" "center (make_roi c small_square) = (179 / 2, 179 / 2)"
  "center (make_roi b big_pentagon) = (48, 48)"
  "contour (make_roi a mid_square) = [(60, 60), (95, 60), (95, 95), (60, 95)]"
  "contour (make_roi b big_pentagon) = [(0, 0), (100, 0), (100, 60), (60, 100), (0, 100)]"
  "contour (make_roi c small_square) = [(85, 85), (94, 85), (94, 94), (85, 94)]"
  "bounding_box (make_roi a mid_square) = (60, 60, 36, 36)"
  "bounding_box (make_roi b big_pentagon) = (0, 0, 101, 101)"
  "bounding_box (make_roi c small_square) = (85, 85, 10, 10)"
  by (simp_all add: make_roi_def Let_def mid_square_def big_pentagon_def small_square_def)

lemma overlapping_inside:
  "convex_contains [(0, 0), (100, 0), (100, 60), (60, 100), (0, 100)] (155 / 2, 155 / 2)"
  "\<not> convex_contains [(0, 0), (100, 0), (100, 60), (60, 100), (0, 100)] (179 / 2, 179 / 2)"
  "convex_contains [(60, 60), (95, 60), (95, 95), (60, 95)] (179 / 2, 179 / 2)"
  by (simp_all add: convex_contains_def contour_edges_def cross_side_def)

lemma overlapping_nesting:
  "nested_in convex_contains (make_roi a mid_square) (make_roi b big_pentagon)"
  "nested_in convex_contains (make_roi c small_square) (make_roi a mid_square)"
  "\<not> nested_in convex_contains (make_roi c small_square) (make_roi b big_pentagon)"
  by (simp_all add: nested_in_def overlapping_fields overlapping_inside bbox_contained_def)

lemma overlapping_gone:
  "nested_indices convex_contains (build_rois overlapping_masks) = {0}"
proof -
  let ?rois = "[make_roi 0 mid_square, make_roi 1 big_pentagon, make_roi 2 small_square]"
  have e: "enumerate 0 ?rois = [(0, make_roi 0 mid_square), (1, make_roi 1 big_pentagon),
                                 (2, make_roi 2 small_square)]" by simp
  have u: "[0..<length ?rois] = [0, 1, 2]" by (simp add: upt_conv_Cons)
  have s0: "nested_step convex_contains ?rois 0 {} = {0}"
    unfolding nested_step_def e
    by (simp add: overlapping_fields overlapping_inside bbox_contained_def)
  have s1: "nested_step convex_contains ?rois 1 {0} = {0}"
    unfolding nested_step_def e
    by (simp add: overlapping_fields overlapping_inside bbox_contained_def)
  have s2: "nested_step convex_contains ?rois 2 {0} = {0}"
    unfolding nested_step_def e
    by (simp add: overlapping_fields overlapping_inside bbox_contained_def)
  show ?thesis unfolding overlapping_rois nested_indices_def u
    by (simp only: fold_simps o_apply id_apply s0 s1 s2)
qed

text \<open>
  Claim C8 as stated fails on the three overlapping masks: the small square (index 2) is
  smaller than the mid square (index 0), its centroid is inside that contour and its
  bounding box within that bounding box, yet it survives, because the mid square has been
  removed (it is nested in the pentagon) before the small square is examined, and the
  small square's centroid is outside the pentagon.
\<close>

theorem nested_region_survives:
  "nested_in convex_contains (build_rois overlapping_masks ! 2) (build_rois overlapping_masks ! 0) \<and>
   detect_rois convex_contains overlapping_masks
     = [(build_rois overlapping_masks ! 1)\<lparr>roi_id := 0\<rparr>,
        (build_rois overlapping_masks ! 2)\<lparr>roi_id := 1\<rparr>]"
proof -
  have "detect_rois convex_contains overlapping_masks
     = [(build_rois overlapping_masks ! 1)\<lparr>roi_id := 0\<rparr>,
        (build_rois overlapping_masks ! 2)\<lparr>roi_id := 1\<rparr>]"
    unfolding detect_rois_def remove_nested_rois_def overlapping_gone Let_def
    by (simp add: overlapping_rois)
  then show ?thesis by (simp add: overlapping_rois overlapping_nesting)
qed


theorem nested_removal_witness:
  "0 < length (build_rois overlapping_masks) \<and> 1 < length (build_rois overlapping_masks) \<and>
   nested_in convex_contains (build_rois overlapping_masks ! 0) (build_rois overlapping_masks ! 1) \<and>
   (0::nat) < 1 \<and>
   0 \<notin> set (filter (\<lambda>k. k \<notin> nested_indices convex_contains (build_rois overlapping_masks))
                [0..<length (build_rois overlapping_masks)]) \<and>
   map roi_id (detect_rois convex_contains overlapping_masks)
     = [0..<length (detect_rois convex_contains overlapping_masks)]"
proof -
  let ?rois = "build_rois overlapping_masks"
  have h1: "0 < length ?rois" and h2: "1 < length ?rois" by (simp_all add: overlapping_rois)
  have h3: "nested_in convex_contains (?rois ! 0) (?rois ! 1)"
    by (simp add: overlapping_rois overlapping_nesting)
  have h4: "(0::nat) < 1" by simp
  note t = nested_removal[of overlapping_masks convex_contains, unfolded Let_def]
  from t have "\<forall>i j. i < length ?rois \<longrightarrow> j < length ?rois \<longrightarrow>
          nested_in convex_contains (?rois ! i) (?rois ! j) \<longrightarrow>
          (i < j \<or> j \<in> set (filter (\<lambda>k. k \<notin> nested_indices convex_contains ?rois) [0..<length ?rois])) \<longrightarrow>
          i \<notin> set (filter (\<lambda>k. k \<notin> nested_indices convex_contains ?rois) [0..<length ?rois])"
    by (rule conjunct1)
  with h1 h2 h3 h4
  have a: "0 \<notin> set (filter (\<lambda>k. k \<notin> nested_indices convex_contains ?rois) [0..<length ?rois])"
    by blast
  from t have b: "map roi_id (detect_rois convex_contains overlapping_masks)
     = [0..<length (detect_rois convex_contains overlapping_masks)]"
    by blast
  from h1 h2 h3 h4 a b show ?thesis by blast
qed

subsection \<open>Shape category\<close>

text \<open>
  Claim C10. The shape category of a detected region depends on the two axes of the fitted
  ellipse only: it is \<open>round\<close> exactly when the larger axis is positive and the ratio of the
  smaller to the larger axis exceeds 0.85, and \<open>other\<close> otherwise (a zero major axis gives
  the ratio 0).
\<close>

theorem shape_category_by_axis_ratio:
  "(detected_type (make_roi rid m) = ''round'')
     = (0 < max (fst (m_axes m)) (snd (m_axes m)) \<and>
        min (fst (m_axes m)) (snd (m_axes m)) / max (fst (m_axes m)) (snd (m_axes m)) > 0.85) \<and>
   (detected_type (make_roi rid m) = ''other'')
     = (\<not> (0 < max (fst (m_axes m)) (snd (m_axes m)) \<and>
        min (fst (m_axes m)) (snd (m_axes m)) / max (fst (m_axes m)) (snd (m_axes m)) > 0.85)) \<and>
   aspect_ratio (make_roi rid m)
     = (if 0 < max (fst (m_axes m)) (snd (m_axes m))
        then min (fst (m_axes m)) (snd (m_axes m)) / max (fst (m_axes m)) (snd (m_axes m)) else 0)"
proof -
  let ?major = "max (fst (m_axes m)) (snd (m_axes m))"
  let ?minor = "min (fst (m_axes m)) (snd (m_axes m))"
  let ?ratio = "if 0 < ?major then ?minor / ?major else 0"
  have t: "detected_type (make_roi rid m) = (if ?ratio > 0.85 then ''round'' else ''other'')"
    and a: "aspect_ratio (make_roi rid m) = ?ratio"
    by (simp_all add: make_roi_def Let_def)
  show ?thesis
  proof (cases "0 < ?major")
    case True
    then show ?thesis unfolding t a by simp
  next
    case False
    then show ?thesis unfolding t a by simp
  qed
qed

section \<open>Properties of the mask merge pass\<close>

lemma grow_again: "sweep thr cur entries = (c, entries', True) \<Longrightarrow> grow thr cur entries = grow thr c entries'"
  by (subst grow.simps) simp

lemma grow_done: "sweep thr cur entries = (c, entries', False) \<Longrightarrow> grow thr cur entries = (c, entries')"
  by (subst grow.simps) simp

lemma masks_binarized:
  "binarize mask_a = bin_a" "binarize mask_b = bin_b" "binarize mask_c = bin_c"
  "binarize (map real bin_a) = bin_a" "binarize (map real bin_bc) = bin_bc"
  by (simp_all add: binarize_def mask_a_def mask_b_def mask_c_def bin_a_def bin_b_def bin_c_def bin_bc_def)

lemma mask_unions:
  "logical_or bin_b bin_c = bin_bc" "logical_or bin_a bin_bc = bin_all"
  by (simp_all add: logical_or_def bin_a_def bin_b_def bin_c_def bin_bc_def bin_all_def)

lemma merge_tests:
  "\<not> should_merge (1 / 4) bin_a bin_b" "\<not> should_merge (1 / 4) bin_a bin_c"
  "should_merge (1 / 4) bin_b bin_c" "should_merge (1 / 4) bin_a bin_bc"
  by (simp_all add: should_merge_def calculate_iou_def logical_and_def logical_or_def
        bin_a_def bin_b_def bin_c_def bin_bc_def Let_def)

lemma first_pass:
  "merge_masks merging_detector [mask_a, mask_b, mask_c] = [map real bin_a, map real bin_bc]"
proof -
  let ?thr = "1 / 4 :: real"
  let ?e0 = "[(bin_a, False), (bin_b, False), (bin_c, False)]"
  let ?e1 = "[(bin_a, True), (bin_b, False), (bin_c, False)]"
  let ?e2 = "[(bin_a, True), (bin_b, True), (bin_c, False)]"
  let ?e3 = "[(bin_a, True), (bin_b, True), (bin_c, True)]"
  have g1: "grow ?thr bin_a ?e1 = (bin_a, ?e1)"
    by (rule grow_done) (simp add: merge_tests)
  have s2: "sweep ?thr bin_b ?e2 = (bin_bc, ?e3, True)" by (simp add: merge_tests mask_unions)
  have s3: "sweep ?thr bin_bc ?e3 = (bin_bc, ?e3, False)" by simp
  have g2: "grow ?thr bin_b ?e2 = (bin_bc, ?e3)"
    by (simp only: grow_again[OF s2] grow_done[OF s3])
  have st0: "seed_step ?thr 0 (?e0, []) = (?e1, [map real bin_a])"
    by (simp add: seed_step_def Let_def g1)
  have st1: "seed_step ?thr 1 (?e1, [map real bin_a]) = (?e3, [map real bin_a, map real bin_bc])"
    by (simp add: seed_step_def Let_def g2)
  have st2: "seed_step ?thr 2 (?e3, [map real bin_a, map real bin_bc])
               = (?e3, [map real bin_a, map real bin_bc])"
    by (simp add: seed_step_def Let_def)
  have u: "[0..<length (map binarize [mask_a, mask_b, mask_c])] = [0, 1, 2]"
    by (simp add: upt_conv_Cons)
  have thr: "overlap_threshold merging_detector = ?thr" "merge_overlapping merging_detector"
    by (simp_all add: merging_detector_def)
  have init: "map (\<lambda>m. (m, False)) (map binarize [mask_a, mask_b, mask_c]) = ?e0"
    by (simp add: masks_binarized)
  show ?thesis
    unfolding merge_masks_def Let_def u init thr
    by (simp only: fold_simps o_apply st0 st1 st2 snd_conv) (simp add: thr)
qed

lemma second_pass:
  "merge_masks merging_detector [map real bin_a, map real bin_bc] = [map real bin_all]"
proof -
  let ?thr = "1 / 4 :: real"
  let ?e0 = "[(bin_a, False), (bin_bc, False)]"
  let ?e1 = "[(bin_a, True), (bin_bc, False)]"
  let ?e2 = "[(bin_a, True), (bin_bc, True)]"
  have s1: "sweep ?thr bin_a ?e1 = (bin_all, ?e2, True)" by (simp add: merge_tests mask_unions)
  have s2: "sweep ?thr bin_all ?e2 = (bin_all, ?e2, False)" by simp
  have g1: "grow ?thr bin_a ?e1 = (bin_all, ?e2)"
    by (simp only: grow_again[OF s1] grow_done[OF s2])
  have st0: "seed_step ?thr 0 (?e0, []) = (?e2, [map real bin_all])"
    by (simp add: seed_step_def Let_def g1)
  have st1: "seed_step ?thr 1 (?e2, [map real bin_all]) = (?e2, [map real bin_all])"
    by (simp add: seed_step_def Let_def)
  have u: "[0..<length (map binarize [map real bin_a, map real bin_bc])] = [0, 1]"
    by (simp add: upt_conv_Cons)
  have thr: "overlap_threshold merging_detector = ?thr" "merge_overlapping merging_detector"
    by (simp_all add: merging_detector_def)
  have init: "map (\<lambda>m. (m, False)) (map binarize [map real bin_a, map real bin_bc]) = ?e0"
    by (simp add: masks_binarized)
  show ?thesis
    unfolding merge_masks_def Let_def u init thr
    by (simp only: fold_simps o_apply st0 st1 snd_conv) (simp add: thr)
qed

text \<open>
  Claim C7. The merge pass is not idempotent. On the three masks the group seeded by
  \<open>mask_a\<close> is closed first: \<open>mask_a\<close> overlaps \<open>mask_b\<close> and \<open>mask_c\<close> in two of its five
  pixels each, which meets none of the merge conditions. Then \<open>mask_b\<close> and \<open>mask_c\<close> are
  merged, and their union holds four of the five pixels of \<open>mask_a\<close>; the finished group of
  \<open>mask_a\<close> is not looked at again. A second application of the pass merges the two output
  masks into one.
\<close>

theorem merge_not_idempotent:
  "merge_masks merging_detector [mask_a, mask_b, mask_c]
     = [[1, 1, 1, 1, 1, 0, 0, 0], [1, 1, 1, 1, 0, 1, 1, 1]] \<and>
   merge_masks merging_detector (merge_masks merging_detector [mask_a, mask_b, mask_c])
     = [[1, 1, 1, 1, 1, 1, 1, 1]] \<and>
   merge_masks merging_detector (merge_masks merging_detector [mask_a, mask_b, mask_c])
     \<noteq> merge_masks merging_detector [mask_a, mask_b, mask_c]"
proof -
  have v: "map real bin_a = [1, 1, 1, 1, 1, 0, 0, 0]" "map real bin_bc = [1, 1, 1, 1, 0, 1, 1, 1]"
    "map real bin_all = [1, 1, 1, 1, 1, 1, 1, 1]"
    by (simp_all add: bin_a_def bin_bc_def bin_all_def)
  have one: "merge_masks merging_detector [mask_a, mask_b, mask_c]
               = [[1, 1, 1, 1, 1, 0, 0, 0], [1, 1, 1, 1, 0, 1, 1, 1]]"
    unfolding first_pass v by (rule refl)
  have two: "merge_masks merging_detector (merge_masks merging_detector [mask_a, mask_b, mask_c])
               = [[1, 1, 1, 1, 1, 1, 1, 1]]"
  proof -
    have "merge_masks merging_detector (merge_masks merging_detector [mask_a, mask_b, mask_c])
            = [map real bin_all]"
      by (simp only: first_pass second_pass)
    then show ?thesis unfolding v .
  qed
  have "[[1, 1, 1, 1, 1, 1, 1, 1]] \<noteq> [[1, 1, 1, 1, 1, 0, 0, 0], [1, 1, 1, 1, 0, 1, 1, (1::real)]]"
    by simp
  with one two show ?thesis by simp
qed

section \<open>Properties of the symmetry measurements\<close>

subsection \<open>A patch of uniform brightness\<close>

lemma uniform_selected:
  "valid_pixels (replicate 12 255) (replicate 12 255) = replicate 12 True"
  "count_valid (replicate 12 True) = 12"
  "select_valid (replicate 12 100) (replicate 12 True) = replicate 12 100"
  by (simp_all add: valid_pixels_def count_valid_def select_valid_def)

lemma uniform_stats:
  "np_mean (replicate 12 100) = 100" "np_std (replicate 12 100) = 0"
  by (simp_all add: np_mean_def np_std_def sum_list_replicate)

lemma corrcoef_constant: "corrcoef (replicate n 0) ys = None"
  by (simp add: corrcoef_def np_mean_def Let_def sum_list_replicate)

lemma uniform_mirror: "mirror_symmetry_of uniform_halves = None"
  by (simp add: mirror_symmetry_of_def uniform_halves_def compute_mirror_symmetry_def
        uniform_selected uniform_stats corrcoef_constant Let_def)

subsection \<open>Zero variance in general\<close>

lemma zero_std_constant:
  assumes "xs \<noteq> []" and "np_std xs = 0"
  shows "list_all (\<lambda>x. x = np_mean xs) xs"
proof -
  let ?m = "np_mean xs"
  from assms have "sum_list (map (\<lambda>x. (x - ?m)\<^sup>2) xs) = 0"
    by (simp add: np_std_def np_mean_def[of "map _ _"])
  moreover have "\<And>y. y \<in> set (map (\<lambda>x. (x - ?m)\<^sup>2) xs) \<Longrightarrow> 0 \<le> y" by auto
  ultimately have "\<forall>y\<in>set (map (\<lambda>x. (x - ?m)\<^sup>2) xs). y = 0"
    by (simp only: sum_list_nonneg_eq_0_iff)
  then show ?thesis by (simp add: list_all_iff)
qed

lemma zero_std_gives_nan:
  assumes "10 \<le> count_valid (valid_pixels lm rm)"
    and "2 \<le> length (select_valid l (valid_pixels lm rm))"
    and "np_std (select_valid l (valid_pixels lm rm)) = 0"
  shows "compute_mirror_symmetry l r lm rm = None"
proof -
  let ?xs = "select_valid l (valid_pixels lm rm)"
  have ne: "?xs \<noteq> []" using assms(2) by auto
  have "list_all (\<lambda>x. x = np_mean ?xs) ?xs" by (rule zero_std_constant[OF ne assms(3)])
  then have "map (\<lambda>x. (x - np_mean ?xs) / (np_std ?xs + 1 / 10 ^ 8)) ?xs
               = map (\<lambda>x. 0) ?xs"
    by (intro map_cong) (auto simp add: list_all_iff)
  also have "\<dots> = replicate (length ?xs) 0" by (rule map_replicate_const)
  finally have "corrcoef (map (\<lambda>x. (x - np_mean ?xs) / (np_std ?xs + 1 / 10 ^ 8)) ?xs) ys = None"
    for ys by (simp only: corrcoef_constant)
  then show ?thesis using assms(1,2)
    by (simp add: compute_mirror_symmetry_def Let_def)
qed

lemma reflection_fallback:
  assumes "num_spots \<noteq> 0" and "m00 \<noteq> 0"
    and "10 \<le> count_valid (valid_pixels lm rm)"
    and "2 \<le> length (select_valid l (valid_pixels lm rm))"
    and "np_std (select_valid l (valid_pixels lm rm)) < 1 / 10 ^ 6 \<or>
         np_std (select_valid r (valid_pixels lm rm)) < 1 / 10 ^ 6"
  shows "analyze_reflection_symmetry num_spots m00 l r lm rm
           = min 1 (max 0 (1 - \<bar>np_mean (select_valid l (valid_pixels lm rm))
                                  - np_mean (select_valid r (valid_pixels lm rm))\<bar> / 255))"
  using assms by (auto simp add: analyze_reflection_symmetry_def Let_def)

text \<open>
  Claim C3. \<open>compute_mirror_symmetry\<close> has no branch for a near-zero standard deviation
  and none for a NaN correlation. On the uniform patch the standard deviation of the valid
  pixels is 0 on both sides, the normalised arrays are constant, \<open>np.corrcoef\<close> divides
  \<open>0 / 0\<close> and the function returns NaN, not the brightness-difference score (which would
  be 1). \<open>_analyze_reflection_symmetry\<close> has the branch and returns 1 on the same arrays.
\<close>

theorem uniform_patch_no_fallback:
  "np_std (select_valid (replicate 12 100) (valid_pixels (replicate 12 255) (replicate 12 255))) = 0 \<and>
   compute_mirror_symmetry (replicate 12 100) (replicate 12 100)
      (replicate 12 255) (replicate 12 255) = None \<and>
   analyze_reflection_symmetry 1 1 (replicate 12 100) (replicate 12 100)
      (replicate 12 255) (replicate 12 255) = 1"
proof -
  have "compute_mirror_symmetry (replicate 12 100) (replicate 12 100)
      (replicate 12 255) (replicate 12 255) = None"
    using uniform_mirror by (simp add: mirror_symmetry_of_def uniform_halves_def)
  moreover have "analyze_reflection_symmetry 1 1 (replicate 12 100) (replicate 12 100)
      (replicate 12 255) (replicate 12 255) = 1"
    by (simp add: analyze_reflection_symmetry_def uniform_selected uniform_stats Let_def)
  ultimately show ?thesis by (simp add: uniform_selected uniform_stats)
qed

text \<open>
  Claim C9. The outline symmetry is the maximum of two results of
  \<open>compute_mirror_symmetry\<close>; on the uniform patch both are NaN, so the score is NaN and
  not a number in the interval from 0 to 1. The lemmas after the theorem show that every
  number \<open>compute_mirror_symmetry\<close> returns, and the reflection symmetry, the spot symmetry,
  the aspect ratio and the circularity, are in that interval.
\<close>

theorem outline_symmetry_not_in_unit_interval:
  "outline_symmetry uniform_halves uniform_halves = None \<and>
   \<not> in_unit_interval (outline_symmetry uniform_halves uniform_halves)"
  by (simp add: outline_symmetry_def uniform_mirror py_max_def in_unit_interval_def)

subsection \<open>Ranges of the measurements\<close>

lemma mirror_symmetry_range:
  "compute_mirror_symmetry l r lm rm = Some s \<Longrightarrow> 0 \<le> s \<and> s \<le> 1"
  by (auto simp add: compute_mirror_symmetry_def Let_def split: if_splits option.splits)

lemma reflection_symmetry_range:
  "0 \<le> analyze_reflection_symmetry n m00 l r lm rm \<and>
   analyze_reflection_symmetry n m00 l r lm rm \<le> 1"
  by (simp add: analyze_reflection_symmetry_def Let_def)

lemma matching_le_valid:
  "length (filter (\<lambda>p. P (fst p) \<and> snd p) (zip xs vs)) \<le> length (filter id vs)"
proof (induction vs arbitrary: xs)
  case Nil
  show ?case by simp
next
  case (Cons v vs)
  show ?case
  proof (cases xs)
    case Nil
    then show ?thesis by simp
  next
    case (Cons x xs')
    with Cons.IH[of xs'] show ?thesis by (simp add: le_SucI)
  qed
qed

lemma spot_symmetry_range:
  "0 \<le> measure_spot_symmetry m00 l r lm rm \<and> measure_spot_symmetry m00 l r lm rm \<le> 1"
proof -
  let ?valid = "valid_pixels lm rm"
  have "length (filter (\<lambda>p. fst (fst p) = snd (fst p) \<and> snd p) (zip (zip l r) ?valid))
          \<le> count_valid ?valid"
    unfolding count_valid_def
    using matching_le_valid[of "\<lambda>q. fst q = snd q" "zip l r" ?valid] by simp
  then show ?thesis
    by (simp add: measure_spot_symmetry_def Let_def divide_le_eq_1)
qed

lemma aspect_ratio_range:
  "0 \<le> a \<Longrightarrow> 0 \<le> b \<Longrightarrow>
     0 \<le> calculate_aspect_ratio n (a, b) \<and> calculate_aspect_ratio n (a, b) \<le> 1"
  by (auto simp add: calculate_aspect_ratio_def divide_le_eq_1 min_def max_def)

lemma circularity_range:
  "(\<forall>a p. c = Some (a, p) \<longrightarrow> 0 \<le> a) \<Longrightarrow> 0 \<le> circularity_of c \<and> circularity_of c \<le> 1"
  by (cases c) (auto simp add: circularity_of_def)

end
